theory Spec2Isabelle
  imports Complex_Main "HOL-Library.Sublist" "HOL-Library.Word"
begin

chapter \<open>PyHelp: report parsers, batch runner and weather-file converters\<close>

text \<open>
  A shallow embedding of \<^verbatim>\<open>pyhelp/processing.py\<close> and \<^verbatim>\<open>pyhelp/weather_reader.py\<close>.
  Every Python function is a HOL function of the same name; an exception is a value
  \<open>Inl e\<close> of the result type \<open>error + 'a\<close>. Library functions whose results are
  floating-point numbers (\<^verbatim>\<open>float\<close>, the float32 conversion of numpy, the Excel date of
  xlrd, \<^verbatim>\<open>str.format\<close> on a float) are parameters of the functions that call them, so
  every theorem holds whatever these functions compute.
\<close>

section \<open>Python values and string operations\<close>

datatype error =
  IndexError | ValueError | UnboundLocalError | AssertionError | KeyError
  | FileNotFoundError | XLDateError | SimulatorError | OverflowError

text \<open>Sequencing of two computations that may raise: the first exception ends both.\<close>

definition ebind :: "error + 'a \<Rightarrow> ('a \<Rightarrow> error + 'b) \<Rightarrow> error + 'b" where
  "ebind r f = (case r of Inl e \<Rightarrow> Inl e | Inr x \<Rightarrow> f x)"

lemma ebind_simps [simp]: "ebind (Inl e) f = Inl e" "ebind (Inr x) f = f x"
  by (simp_all add: ebind_def)

lemma ebind_eq_Inr: "ebind r f = Inr y \<longleftrightarrow> (\<exists>x. r = Inr x \<and> f x = Inr y)"
  by (cases r) simp_all

text \<open>A file read through \<^verbatim>\<open>list(csv.reader(f))\<close>: one list of fields per row.\<close>

type_synonym csv = "string list list"

text \<open>\<^verbatim>\<open>str.isspace\<close> on the ASCII range.\<close>

definition is_space :: "char \<Rightarrow> bool" where
  "is_space c = (c \<in> set [CHR '' '', CHR 0x09, CHR 0x0A, CHR 0x0B, CHR 0x0C, CHR 0x0D,
                           CHR 0x1C, CHR 0x1D, CHR 0x1E, CHR 0x1F])"

text \<open>\<^verbatim>\<open>s.split()\<close>: the maximal runs of characters that are not whitespace.\<close>

fun split_acc :: "string \<Rightarrow> string \<Rightarrow> string list" where
  "split_acc cur [] = (if cur = [] then [] else [rev cur])"
| "split_acc cur (c # cs) =
     (if is_space c then (if cur = [] then split_acc [] cs else rev cur # split_acc [] cs)
      else split_acc (c # cur) cs)"

definition split :: "string \<Rightarrow> string list" where
  "split s = split_acc [] s"

text \<open>\<^verbatim>\<open>xs[-n:]\<close> for a positive \<open>n\<close>, and \<^verbatim>\<open>s[a:b]\<close> for \<open>0 \<le> a \<le> b\<close>.\<close>

definition last_n :: "nat \<Rightarrow> 'a list \<Rightarrow> 'a list" where
  "last_n n xs = drop (length xs - n) xs"

definition slice :: "nat \<Rightarrow> nat \<Rightarrow> 'a list \<Rightarrow> 'a list" where
  "slice a b xs = take (b - a) (drop a xs)"

text \<open>
  \<^verbatim>\<open>int(s)\<close> on an ASCII string: the blanks and the characters \<^verbatim>\<open>0x09\<close> to \<^verbatim>\<open>0x0D\<close>
  around the number are dropped, but not the separators \<^verbatim>\<open>0x1C\<close> to \<^verbatim>\<open>0x1F\<close>, which
  \<^verbatim>\<open>str.split\<close> takes for whitespace and \<^verbatim>\<open>int\<close> does not; one sign is allowed, and the
  digits may be grouped by single underscores. \<open>None\<close> is the \<^verbatim>\<open>ValueError\<close>.
\<close>

definition is_int_space :: "char \<Rightarrow> bool" where
  "is_int_space c = (c \<in> set [CHR '' '', CHR 0x09, CHR 0x0A, CHR 0x0B, CHR 0x0C, CHR 0x0D])"

definition digit_val :: "char \<Rightarrow> nat option" where
  "digit_val c = (let n = (of_char c :: nat) in if 48 \<le> n \<and> n \<le> 57 then Some (n - 48) else None)"

fun nat_of_digits :: "nat \<Rightarrow> string \<Rightarrow> nat option" where
  "nat_of_digits acc [] = Some acc"
| "nat_of_digits acc (c # cs) =
     (case digit_val c of None \<Rightarrow> None | Some d \<Rightarrow> nat_of_digits (10 * acc + d) cs)"

definition int_body :: "string \<Rightarrow> nat option" where
  "int_body b =
     (if b = [] \<or> hd b = CHR ''_'' \<or> last b = CHR ''_'' \<or> sublist ''__'' b then None
      else nat_of_digits 0 (filter (\<lambda>c. c \<noteq> CHR ''_'') b))"

definition py_int :: "string \<Rightarrow> int option" where
  "py_int s =
     (case rev (dropWhile is_int_space (rev (dropWhile is_int_space s))) of
        [] \<Rightarrow> None
      | c # cs \<Rightarrow>
          if c = CHR ''-'' then map_option (\<lambda>n. - int n) (int_body cs)
          else if c = CHR ''+'' then map_option int (int_body cs)
          else map_option int (int_body (c # cs)))"

text \<open>\<^verbatim>\<open>int(line.split()[-1])\<close>, as both report parsers read a number that ends a line.\<close>

definition int_of_last_token :: "string \<Rightarrow> error + int" where
  "int_of_last_token line =
     (case split line of
        [] \<Rightarrow> Inl IndexError
      | t # ts \<Rightarrow> (case py_int (last (t # ts)) of None \<Rightarrow> Inl ValueError | Some n \<Rightarrow> Inr n))"

text \<open>\<^verbatim>\<open>calendar.isleap\<close> and the day count both parsers and the writer derive from it.\<close>

definition isleap :: "int \<Rightarrow> bool" where
  "isleap year = (year mod 4 = 0 \<and> (year mod 100 \<noteq> 0 \<or> year mod 400 = 0))"

definition days_of_year :: "int \<Rightarrow> nat" where
  "days_of_year year = (if isleap year then 366 else 365)"

section \<open>Arrays and result tables\<close>

text \<open>
  A numpy array as the parsers return it: the \<^verbatim>\<open>uint16\<close> array of years (and days), a
  one-dimensional and a two-dimensional \<^verbatim>\<open>float32\<close> array. The float type \<open>'v\<close> is abstract.
\<close>

datatype 'v ndarray = U16 "16 word list" | F32 "'v list" | F32_2d "'v list list"

fun leading_dim :: "'v ndarray \<Rightarrow> nat" where
  "leading_dim (U16 ys) = length ys"
| "leading_dim (F32 xs) = length xs"
| "leading_dim (F32_2d rows) = length rows"

text \<open>A result table is the dictionary the parser returns, in the order of its keys.\<close>

type_synonym 'v table = "(string \<times> 'v ndarray) list"

text \<open>
  \<^verbatim>\<open>np.array(xs).astype('uint16')\<close> on a list of Python integers. \<^verbatim>\<open>np.array\<close> makes an
  \<^verbatim>\<open>int64\<close> array when every integer fits that type and a \<^verbatim>\<open>uint64\<close> array when every
  integer is from \<open>2 ^ 63\<close> to \<open>2 ^ 64 - 1\<close>; the conversion of both wraps modulo
  \<open>2 ^ 16\<close>. An integer outside both types makes an array of objects, whose conversion
  raises \<^verbatim>\<open>OverflowError\<close>. Integers of both types together make a \<^verbatim>\<open>float64\<close> array:
  its conversion keeps the values from 0 to 65535, and what it gives for another value is
  left to the C compiler; \<open>u16\<close> stands for it.
\<close>

definition astype_uint16 :: "(int \<Rightarrow> 16 word) \<Rightarrow> int list \<Rightarrow> error + 16 word list" where
  "astype_uint16 u16 xs =
     (if list_all (\<lambda>x. - (2 ^ 63) \<le> x \<and> x < 2 ^ 63) xs then Inr (map word_of_int xs)
      else if list_all (\<lambda>x. 2 ^ 63 \<le> x \<and> x < 2 ^ 64) xs then Inr (map word_of_int xs)
      else if list_all (\<lambda>x. - (2 ^ 63) \<le> x \<and> x < 2 ^ 64) xs then
        Inr (map (\<lambda>x. if 0 \<le> x \<and> x < 2 ^ 16 then word_of_int x else u16 x) xs)
      else Inl OverflowError)"

text \<open>
  \<^verbatim>\<open>np.array(tokens).astype('float32')\<close> on a list of strings: \<open>f32\<close> is numpy's conversion of
  one string, \<open>None\<close> where it raises \<^verbatim>\<open>ValueError\<close>.
\<close>

fun astype_float32 :: "(string \<Rightarrow> 'v option) \<Rightarrow> string list \<Rightarrow> error + 'v list" where
  "astype_float32 f32 [] = Inr []"
| "astype_float32 f32 (t # ts) =
     (case f32 t of
        None \<Rightarrow> Inl ValueError
      | Some x \<Rightarrow> (case astype_float32 f32 ts of Inl e \<Rightarrow> Inl e | Inr xs \<Rightarrow> Inr (x # xs)))"

text \<open>
  \<^verbatim>\<open>np.vstack\<close> on a list of rows: an empty list and rows of different lengths raise
  \<^verbatim>\<open>ValueError\<close>. A zero-dimensional array is stacked as a row of one element, and is
  kept as such a row here.
\<close>

definition np_vstack :: "'v list list \<Rightarrow> error + 'v list list" where
  "np_vstack rows =
     (if rows = [] then Inl ValueError
      else if list_all (\<lambda>r. length r = length (hd rows)) rows then Inr rows
      else Inl ValueError)"

section \<open>The monthly report parser\<close>

text \<open>
  The local variables of \<^verbatim>\<open>read_monthly_help_output\<close>. \<open>precip\<close>, \<open>runoff\<close>,
  \<open>evapo\<close> and \<open>rechg\<close> are \<open>None\<close> while the name is unbound; \<open>subrunoff\<close> and
  \<open>percol\<close> are \<open>None\<close> when they hold Python's \<^verbatim>\<open>None\<close>.
\<close>

record 'v monthly_state =
  arr_years :: "int list"
  vstack_precip :: "'v list list"
  vstack_runoff :: "'v list list"
  vstack_evapo :: "'v list list"
  vstack_subrunoff :: "'v list list"
  vstack_percol :: "'v list list"
  vstack_rechg :: "'v list list"
  precip :: "string list option"
  runoff :: "string list option"
  evapo :: "string list option"
  subrunoff :: "string list option"
  percol :: "string list option"
  rechg :: "string list option"

definition monthly_init :: "'v monthly_state" where
  "monthly_init =
     \<lparr>arr_years = [], vstack_precip = [], vstack_runoff = [], vstack_evapo = [],
      vstack_subrunoff = [], vstack_percol = [], vstack_rechg = [],
      precip = None, runoff = None, evapo = None, subrunoff = None, percol = None,
      rechg = None\<rparr>"

text \<open>\<^verbatim>\<open>line.split()[-6:] + nline.split()[-6:]\<close>\<close>

definition pair_tokens :: "string \<Rightarrow> string \<Rightarrow> string list" where
  "pair_tokens line nline = last_n 6 (split line) @ last_n 6 (split nline)"

text \<open>The chain of \<^verbatim>\<open>if\<close>/\<^verbatim>\<open>elif\<close> on a line of a year block and the line after it.\<close>

definition block_line :: "'v monthly_state \<Rightarrow> string \<Rightarrow> string \<Rightarrow> 'v monthly_state" where
  "block_line st line nline =
     (if sublist ''PRECIPITATION'' line then st\<lparr>precip := Some (pair_tokens line nline)\<rparr>
      else if sublist ''RUNOFF'' line then st\<lparr>runoff := Some (pair_tokens line nline)\<rparr>
      else if sublist ''EVAPOTRANSPIRATION'' line then
        st\<lparr>evapo := Some (pair_tokens line nline)\<rparr>
      else if sublist ''LATERAL DRAINAGE'' line \<and> subrunoff st = None then
        st\<lparr>subrunoff := Some (pair_tokens line nline)\<rparr>
      else if sublist ''PERCOLATION'' line then
        (if percol st = None then st\<lparr>percol := Some (pair_tokens line nline)\<rparr> else st)
          \<lparr>rechg := Some (pair_tokens line nline)\<rparr>
      else st)"

text \<open>
  The inner \<^verbatim>\<open>while True\<close> loop, entered with \<open>i\<close> at the line of the year marker. It
  returns the index of the separator line; reading past the last row is the
  \<^verbatim>\<open>IndexError\<close> of \<^verbatim>\<open>csvread[i]\<close> or \<^verbatim>\<open>csvread[i+1]\<close>.
\<close>

function block_loop :: "csv \<Rightarrow> nat \<Rightarrow> 'v monthly_state \<Rightarrow> error + (nat \<times> 'v monthly_state)" where
  "block_loop csvread i st =
     (if length csvread \<le> Suc i then Inl IndexError
      else if csvread ! Suc i = [] then block_loop csvread (Suc i) st
      else if sublist ''**********'' (hd (csvread ! Suc i)) then Inr (Suc i, st)
      else if length csvread \<le> Suc (Suc i) then Inl IndexError
      else if csvread ! Suc (Suc i) = [] then block_loop csvread (Suc i) st
      else block_loop csvread (Suc i)
             (block_line st (hd (csvread ! Suc i)) (hd (csvread ! Suc (Suc i)))))"
  by pat_completeness auto
termination
  by (relation "measure (\<lambda>(csvread, i, st). length csvread - i)") auto

declare block_loop.simps [simp del]

lemma block_loop_index:
  "block_loop csvread i st = Inr (j, st') \<Longrightarrow> i < j \<and> j < length csvread"
proof (induction csvread i st rule: block_loop.induct)
  case (1 csvread i st)
  note eq = block_loop.simps[of csvread i st]
  show ?case
  proof (cases "length csvread \<le> Suc i")
    case True
    with "1.prems" eq show ?thesis by simp
  next
    case inr: False
    show ?thesis
    proof (cases "csvread ! Suc i = []")
      case True
      with inr "1.prems" eq have "block_loop csvread (Suc i) st = Inr (j, st')" by simp
      from "1.IH"(1)[OF inr True this] show ?thesis by simp
    next
      case ne: False
      show ?thesis
      proof (cases "sublist ''**********'' (hd (csvread ! Suc i))")
        case True
        with inr ne "1.prems" eq show ?thesis by simp
      next
        case nsep: False
        show ?thesis
        proof (cases "length csvread \<le> Suc (Suc i)")
          case True
          with inr ne nsep "1.prems" eq show ?thesis by simp
        next
          case inr2: False
          show ?thesis
          proof (cases "csvread ! Suc (Suc i) = []")
            case True
            with inr ne nsep inr2 "1.prems" eq
            have "block_loop csvread (Suc i) st = Inr (j, st')" by simp
            from "1.IH"(2)[OF inr ne nsep inr2 True this] show ?thesis by simp
          next
            case False
            with inr ne nsep inr2 "1.prems" eq
            have "block_loop csvread (Suc i)
                   (block_line st (hd (csvread ! Suc i)) (hd (csvread ! Suc (Suc i)))) =
                  Inr (j, st')"
              by simp
            from "1.IH"(3)[OF inr ne nsep inr2 False this] show ?thesis by simp
          qed
        qed
      qed
    qed
  qed
qed

text \<open>
  The six \<^verbatim>\<open>append\<close> calls after the inner loop, in the order of the source. Reading an
  unbound name is the \<^verbatim>\<open>UnboundLocalError\<close>; \<^verbatim>\<open>np.array(None).astype('float32')\<close> is the
  zero-dimensional array holding \<open>nan\<close>, and \<^verbatim>\<open>np.zeros(12)\<close> is twelve zeros.
\<close>

definition bound_row :: "(string \<Rightarrow> 'v option) \<Rightarrow> string list option \<Rightarrow> error + 'v list" where
  "bound_row f32 var =
     (case var of None \<Rightarrow> Inl UnboundLocalError | Some toks \<Rightarrow> astype_float32 f32 toks)"

definition percol_row :: "(string \<Rightarrow> 'v option) \<Rightarrow> 'v \<Rightarrow> string list option \<Rightarrow> error + 'v list" where
  "percol_row f32 nan var =
     (case var of None \<Rightarrow> Inr [nan] | Some toks \<Rightarrow> astype_float32 f32 toks)"

definition subrunoff_row :: "(string \<Rightarrow> 'v option) \<Rightarrow> string list option \<Rightarrow> error + ('v::zero) list" where
  "subrunoff_row f32 var =
     (case var of None \<Rightarrow> Inr (replicate 12 0) | Some toks \<Rightarrow> astype_float32 f32 toks)"

definition append_rows ::
  "(string \<Rightarrow> 'v option) \<Rightarrow> 'v \<Rightarrow> ('v::zero) monthly_state \<Rightarrow> error + 'v monthly_state" where
  "append_rows f32 nan st =
     ebind (bound_row f32 (precip st)) (\<lambda>r_precip.
     ebind (bound_row f32 (runoff st)) (\<lambda>r_runoff.
     ebind (bound_row f32 (evapo st)) (\<lambda>r_evapo.
     ebind (bound_row f32 (rechg st)) (\<lambda>r_rechg.
     ebind (percol_row f32 nan (percol st)) (\<lambda>r_percol.
     ebind (subrunoff_row f32 (subrunoff st)) (\<lambda>r_subrunoff.
       Inr (st\<lparr>vstack_precip := vstack_precip st @ [r_precip],
               vstack_runoff := vstack_runoff st @ [r_runoff],
               vstack_evapo := vstack_evapo st @ [r_evapo],
               vstack_rechg := vstack_rechg st @ [r_rechg],
               vstack_percol := vstack_percol st @ [r_percol],
               vstack_subrunoff := vstack_subrunoff st @ [r_subrunoff]\<rparr>)))))))"

text \<open>
  The body of the branch \<^verbatim>\<open>if 'MONTHLY TOTALS' in line\<close>, for the marker at row \<open>i\<close>: the
  year is read and appended, \<open>subrunoff\<close> and \<open>percol\<close> are reset, the inner loop runs to
  the separator at row \<open>j\<close>, and one row is appended to each stack.
\<close>

definition monthly_block ::
  "(string \<Rightarrow> 'v option) \<Rightarrow> 'v \<Rightarrow> csv \<Rightarrow> nat \<Rightarrow> ('v::zero) monthly_state
     \<Rightarrow> error + (nat \<times> 'v monthly_state)" where
  "monthly_block f32 nan csvread i st =
     ebind (int_of_last_token (hd (csvread ! i))) (\<lambda>year.
     ebind (block_loop csvread i
              (st\<lparr>arr_years := arr_years st @ [year], subrunoff := None, percol := None\<rparr>))
       (\<lambda>(j, st1).
     ebind (append_rows f32 nan st1) (\<lambda>st2. Inr (j, st2))))"

lemma monthly_block_index:
  "monthly_block f32 nan csvread i st = Inr (j, st') \<Longrightarrow> i < j \<and> j < length csvread"
  unfolding monthly_block_def
  by (auto simp: ebind_eq_Inr dest: block_loop_index)

text \<open>The outer \<^verbatim>\<open>while True\<close> loop, with its \<^verbatim>\<open>i += 1\<close> at the end of every round.\<close>

function monthly_loop ::
  "(string \<Rightarrow> 'v option) \<Rightarrow> 'v \<Rightarrow> csv \<Rightarrow> nat \<Rightarrow> ('v::zero) monthly_state
     \<Rightarrow> error + 'v monthly_state" where
  "monthly_loop f32 nan csvread i st =
     (if length csvread \<le> i + 1 then Inr st
      else if csvread ! i = [] then monthly_loop f32 nan csvread (i + 1) st
      else if sublist ''MONTHLY TOTALS'' (hd (csvread ! i)) then
        (case monthly_block f32 nan csvread i st of
           Inl e \<Rightarrow> Inl e
         | Inr (j, st') \<Rightarrow> monthly_loop f32 nan csvread (j + 1) st')
      else if sublist ''FINAL WATER STORAGE'' (hd (csvread ! i)) then Inr st
      else monthly_loop f32 nan csvread (i + 1) st)"
  by pat_completeness auto
termination
proof (relation "measure (\<lambda>(f32, nan, csvread, i, st). length csvread - i)")
  fix f32 :: "string \<Rightarrow> ('v::zero) option" and nan :: 'v and csvread :: csv and i :: nat
    and st :: "'v monthly_state" and x2 :: "nat \<times> 'v monthly_state" and j :: nat
    and st' :: "'v monthly_state"
  assume "\<not> length csvread \<le> i + 1"
    and "monthly_block f32 nan csvread i st = Inr x2" and "(j, st') = x2"
  then have "i < j" and "i < length csvread"
    using monthly_block_index[of f32 nan csvread i st j st'] by auto
  then show "((f32, nan, csvread, j + 1, st'), (f32, nan, csvread, i, st))
      \<in> measure (\<lambda>(f32, nan, csvread, i, st). length csvread - i)"
    by simp
qed auto

declare monthly_loop.simps [simp del]

text \<open>
  \<^verbatim>\<open>read_monthly_help_output\<close>, on the rows of the file it opens. The dictionary is built
  in the order of its keys, so the first conversion that raises decides the error.
\<close>

definition read_monthly_help_output ::
  "(int \<Rightarrow> 16 word) \<Rightarrow> (string \<Rightarrow> 'v option) \<Rightarrow> 'v \<Rightarrow> csv \<Rightarrow> error + ('v::zero) table" where
  "read_monthly_help_output u16 f32 nan csvread =
     ebind (monthly_loop f32 nan csvread 0 monthly_init) (\<lambda>st.
     ebind (astype_uint16 u16 (arr_years st)) (\<lambda>a_years.
     ebind (np_vstack (vstack_precip st)) (\<lambda>a_rain.
     ebind (np_vstack (vstack_runoff st)) (\<lambda>a_runoff.
     ebind (np_vstack (vstack_evapo st)) (\<lambda>a_evapo.
     ebind (np_vstack (vstack_subrunoff st)) (\<lambda>a_subrunoff.
     ebind (np_vstack (vstack_percol st)) (\<lambda>a_percol.
     ebind (np_vstack (vstack_rechg st)) (\<lambda>a_rechg.
       Inr [(''years'', U16 a_years),
            (''rain'', F32_2d a_rain),
            (''runoff'', F32_2d a_runoff),
            (''evapo'', F32_2d a_evapo),
            (''sub-runoff'', F32_2d a_subrunoff),
            (''percolation'', F32_2d a_percol),
            (''recharge'', F32_2d a_rechg)]))))))))"

section \<open>The daily report parser\<close>

text \<open>
  The local variables of \<^verbatim>\<open>read_daily_help_output\<close>. The float type of Python is \<open>'w\<close>.
  \<open>days_in_year\<close> is unbound until the first year marker and is read only while
  \<open>year\<close> is set, so its first value is never read.
\<close>

record 'w daily_state =
  arr_years_d :: "int list"
  arr_days :: "int list"
  arr_rain :: "'w list"
  arr_ru :: "'w list"
  arr_et :: "'w list"
  arr_ezone :: "'w list"
  arr_headfirst :: "'w list"
  arr_drainfirst :: "'w list"
  arr_leakfirst :: "'w list"
  arr_leaklast :: "'w list"
  year :: "int option"
  days_in_year :: int
  nlay :: "int option"
  nsub :: "int option"

definition daily_init :: "'w daily_state" where
  "daily_init =
     \<lparr>arr_years_d = [], arr_days = [], arr_rain = [], arr_ru = [], arr_et = [], arr_ezone = [],
      arr_headfirst = [], arr_drainfirst = [], arr_leakfirst = [], arr_leaklast = [],
      year = None, days_in_year = 0, nlay = None, nsub = None\<rparr>"

text \<open>
  The body of the \<^verbatim>\<open>try\<close>: nine conversions of fixed columns of the line. \<open>pyfloat\<close> is
  Python's \<^verbatim>\<open>float\<close> on a string; \<open>None\<close> is the \<^verbatim>\<open>ValueError\<close> that the \<^verbatim>\<open>except\<close>
  clause swallows. A slice never raises.
\<close>

definition daily_fields ::
  "(string \<Rightarrow> 'w option) \<Rightarrow> string \<Rightarrow> (int \<times> 'w \<times> 'w \<times> 'w \<times> 'w \<times> 'w \<times> 'w \<times> 'w \<times> 'w) option" where
  "daily_fields pyfloat line =
     Option.bind (py_int (slice 2 5 line)) (\<lambda>day.
     Option.bind (pyfloat (slice 13 19 line)) (\<lambda>rain.
     Option.bind (pyfloat (slice 19 26 line)) (\<lambda>ru.
     Option.bind (pyfloat (slice 26 33 line)) (\<lambda>et.
     Option.bind (pyfloat (slice 33 41 line)) (\<lambda>ezone.
     Option.bind (pyfloat (slice 41 51 line)) (\<lambda>headfirst.
     Option.bind (pyfloat (slice 51 61 line)) (\<lambda>drainfirst.
     Option.bind (pyfloat (slice 61 71 line)) (\<lambda>leakfirst.
     Option.bind (pyfloat (last_n 10 line)) (\<lambda>leaklast.
       Some (day, rain, ru, et, ezone, headfirst, drainfirst, leakfirst, leaklast))))))))))"

text \<open>The \<^verbatim>\<open>else\<close> clause of the \<^verbatim>\<open>try\<close>: ten appends, then the test on the day number.\<close>

definition daily_append ::
  "'w daily_state \<Rightarrow> int \<Rightarrow> (int \<times> 'w \<times> 'w \<times> 'w \<times> 'w \<times> 'w \<times> 'w \<times> 'w \<times> 'w) \<Rightarrow> 'w daily_state" where
  "daily_append st y flds =
     (case flds of (day, rain, ru, et, ezone, headfirst, drainfirst, leakfirst, leaklast) \<Rightarrow>
        st\<lparr>arr_years_d := arr_years_d st @ [y],
           arr_days := arr_days st @ [day],
           arr_rain := arr_rain st @ [rain],
           arr_ru := arr_ru st @ [ru],
           arr_et := arr_et st @ [et],
           arr_ezone := arr_ezone st @ [ezone],
           arr_headfirst := arr_headfirst st @ [headfirst],
           arr_drainfirst := arr_drainfirst st @ [drainfirst],
           arr_leakfirst := arr_leakfirst st @ [leakfirst],
           arr_leaklast := arr_leaklast st @ [leaklast],
           year := (if day = days_in_year st then None else Some y)\<rparr>)"

text \<open>The two header facts, read from a labelled line outside any \<^verbatim>\<open>try\<close>.\<close>

definition daily_header :: "'w daily_state \<Rightarrow> string \<Rightarrow> error + 'w daily_state" where
  "daily_header st line =
     (if sublist ''TOTAL NUMBER OF LAYERS'' line then
        ebind (int_of_last_token line) (\<lambda>n. Inr (st\<lparr>nlay := Some n\<rparr>))
      else if sublist ''TOTAL NUMBER OF SUBPROFILES'' line then
        ebind (int_of_last_token line) (\<lambda>n. Inr (st\<lparr>nsub := Some n\<rparr>))
      else Inr st)"

text \<open>One round of \<^verbatim>\<open>for i, line in enumerate(csvread)\<close>.\<close>

definition daily_row ::
  "(string \<Rightarrow> 'w option) \<Rightarrow> 'w daily_state \<Rightarrow> string list \<Rightarrow> error + 'w daily_state" where
  "daily_row pyfloat st row =
     (if row = [] then Inr st
      else
        ebind (daily_header st (hd row)) (\<lambda>st1.
          if sublist ''DAILY OUTPUT FOR YEAR'' (hd row) then
            ebind (int_of_last_token (hd row)) (\<lambda>y.
              Inr (st1\<lparr>year := Some y, days_in_year := int (days_of_year y)\<rparr>))
          else
            (case year st1 of
               None \<Rightarrow> Inr st1
             | Some y \<Rightarrow>
                 (case daily_fields pyfloat (hd row) of
                    None \<Rightarrow> Inr st1
                  | Some flds \<Rightarrow> Inr (daily_append st1 y flds)))))"

fun daily_loop ::
  "(string \<Rightarrow> 'w option) \<Rightarrow> 'w daily_state \<Rightarrow> csv \<Rightarrow> error + 'w daily_state" where
  "daily_loop pyfloat st [] = Inr st"
| "daily_loop pyfloat st (row # rows) =
     (case daily_row pyfloat st row of
        Inl e \<Rightarrow> Inl e
      | Inr st' \<Rightarrow> daily_loop pyfloat st' rows)"

text \<open>
  \<^verbatim>\<open>read_daily_help_output\<close>, on the rows of the file it opens. \<open>narrow\<close> is the
  conversion of a Python float to \<^verbatim>\<open>float32\<close>, which never raises.
\<close>

definition read_daily_help_output ::
  "(int \<Rightarrow> 16 word) \<Rightarrow> (string \<Rightarrow> 'w option) \<Rightarrow> ('w \<Rightarrow> 'v) \<Rightarrow> csv \<Rightarrow> error + 'v table" where
  "read_daily_help_output u16 pyfloat narrow csvread =
     ebind (daily_loop pyfloat daily_init csvread) (\<lambda>st.
     ebind (astype_uint16 u16 (arr_years_d st)) (\<lambda>a_years.
     ebind (astype_uint16 u16 (arr_days st)) (\<lambda>a_days.
       Inr [(''years'', U16 a_years),
            (''days'', U16 a_days),
            (''rain'', F32 (map narrow (arr_rain st))),
            (''runoff'', F32 (map narrow (arr_ru st))),
            (''et'', F32 (map narrow (arr_et st))),
            (''ezone'', F32 (map narrow (arr_ezone st))),
            (''head first'', F32 (map narrow (arr_headfirst st))),
            (''drain first'', F32 (map narrow (arr_drainfirst st))),
            (''leak first'', F32 (map narrow (arr_leakfirst st))),
            (''leak last'', F32 (map narrow (arr_leaklast st)))])))"

section \<open>Notions used to state the properties\<close>

definition block_pairs :: "csv \<Rightarrow> nat \<Rightarrow> nat \<Rightarrow> (string \<times> string) list" where
  "block_pairs csvread i j =
     map (\<lambda>k. (hd (csvread ! k), hd (csvread ! Suc k)))
       (filter (\<lambda>k. csvread ! k \<noteq> [] \<and> csvread ! Suc k \<noteq> []) [Suc i..<j])"

definition block_fold :: "'v monthly_state \<Rightarrow> (string \<times> string) list \<Rightarrow> 'v monthly_state" where
  "block_fold st ps = foldl (\<lambda>s (l, n). block_line s l n) st ps"

definition table_aligned :: "'v table \<Rightarrow> bool" where
  "table_aligned tbl =
     (case map_of tbl ''years'' of
        None \<Rightarrow> False
      | Some ys \<Rightarrow> list_all (\<lambda>(k, a). leading_dim a = leading_dim ys) tbl)"

definition monthly_aligned :: "'v monthly_state \<Rightarrow> bool" where
  "monthly_aligned st \<longleftrightarrow>
     length (vstack_precip st) = length (arr_years st) \<and>
     length (vstack_runoff st) = length (arr_years st) \<and>
     length (vstack_evapo st) = length (arr_years st) \<and>
     length (vstack_subrunoff st) = length (arr_years st) \<and>
     length (vstack_percol st) = length (arr_years st) \<and>
     length (vstack_rechg st) = length (arr_years st)"

definition same_stacks :: "'v monthly_state \<Rightarrow> 'v monthly_state \<Rightarrow> bool" where
  "same_stacks st st' \<longleftrightarrow>
     arr_years st' = arr_years st \<and> vstack_precip st' = vstack_precip st \<and>
     vstack_runoff st' = vstack_runoff st \<and> vstack_evapo st' = vstack_evapo st \<and>
     vstack_subrunoff st' = vstack_subrunoff st \<and> vstack_percol st' = vstack_percol st \<and>
     vstack_rechg st' = vstack_rechg st"

definition daily_aligned :: "'w daily_state \<Rightarrow> bool" where
  "daily_aligned st \<longleftrightarrow>
     length (arr_days st) = length (arr_years_d st) \<and>
     length (arr_rain st) = length (arr_years_d st) \<and>
     length (arr_ru st) = length (arr_years_d st) \<and>
     length (arr_et st) = length (arr_years_d st) \<and>
     length (arr_ezone st) = length (arr_years_d st) \<and>
     length (arr_headfirst st) = length (arr_years_d st) \<and>
     length (arr_drainfirst st) = length (arr_years_d st) \<and>
     length (arr_leakfirst st) = length (arr_years_d st) \<and>
     length (arr_leaklast st) = length (arr_years_d st)"

definition monthly_example :: csv where
  "monthly_example =
     [[''HELP MODEL OUTPUT''],
      [''MONTHLY TOTALS (MM) FOR YEAR 2001''],
      [],
      [''PRECIPITATION  10 11 12 13 14 15''],
      [''               16 17 18 19 20 21''],
      [''RUNOFF  0 0 0 1 0 0''],
      [''        0 0 2 0 0 0''],
      [''EVAPOTRANSPIRATION  5 5 5 5 5 5''],
      [''                    6 6 6 6 6 6''],
      [''LATERAL DRAINAGE COLLECTED FROM LAYER 2  1 1 1 1 1 1''],
      [''  2 2 2 2 2 2''],
      [''PERCOLATION/LEAKAGE THROUGH LAYER 3  3 3 3 3 3 3''],
      [''  4 4 4 4 4 4''],
      [''LATERAL DRAINAGE COLLECTED FROM LAYER 4  7 7 7 7 7 7''],
      [''  8 8 8 8 8 8''],
      [''PERCOLATION/LEAKAGE THROUGH LAYER 5  9 9 9 9 9 9''],
      [''  0 0 0 0 0 0''],
      [''*******************''],
      [''FINAL WATER STORAGE AT END OF YEAR 2001''],
      []]"

definition daily_example :: csv where
  "daily_example =
     [[''TOTAL NUMBER OF LAYERS = 3''],
      [''DAILY OUTPUT FOR YEAR 2001''],
      [],
      [''  DAY  RAIN  RUNOFF  ET''],
      [''  364             1      2      3       4         5         6         7''],
      [''  365             8      9     10      11        12        13        14''],
      [''    1            15     16     17      18        19        20        21''],
      [''ANNUAL TOTALS FOR YEAR 2001'']]"

text \<open>
  The lines of a year block that reach a branch of the chain. \<open>block_pairs\<close> lists the
  lines the inner loop hands to the chain, each with the line after it: the rows strictly
  between the marker and the separator that are not empty and whose next row is not empty.
  A \<^emph>\<open>LATERAL DRAINAGE line\<close> contains that label and none of the three labels tested
  before it. A \<^emph>\<open>PERCOLATION line\<close> contains that label and none of the three; the
  \<^emph>\<open>PERCOLATION occurrences\<close> of a block are its PERCOLATION lines, but for the first
  LATERAL DRAINAGE line of the block, which the branch of \<open>subrunoff\<close> takes.
\<close>

definition lateral_line :: "string \<times> string \<Rightarrow> bool" where
  "lateral_line p \<longleftrightarrow>
     sublist ''LATERAL DRAINAGE'' (fst p) \<and> \<not> sublist ''PRECIPITATION'' (fst p) \<and>
     \<not> sublist ''RUNOFF'' (fst p) \<and> \<not> sublist ''EVAPOTRANSPIRATION'' (fst p)"

definition percolation_line :: "string \<times> string \<Rightarrow> bool" where
  "percolation_line p \<longleftrightarrow>
     sublist ''PERCOLATION'' (fst p) \<and> \<not> sublist ''PRECIPITATION'' (fst p) \<and>
     \<not> sublist ''RUNOFF'' (fst p) \<and> \<not> sublist ''EVAPOTRANSPIRATION'' (fst p)"

fun percolation_pairs :: "bool \<Rightarrow> (string \<times> string) list \<Rightarrow> (string \<times> string) list" where
  "percolation_pairs pending [] = []"
| "percolation_pairs pending (p # ps) =
     (if lateral_line p \<and> pending then percolation_pairs False ps
      else if percolation_line p then p # percolation_pairs pending ps
      else percolation_pairs pending ps)"

definition values_of :: "string \<times> string \<Rightarrow> string list" where
  "values_of p = pair_tokens (fst p) (snd p)"

definition monthly_example_state :: "int monthly_state" where
  "monthly_example_state =
     \<lparr>arr_years = [2001],
      vstack_precip = [[10, 11, 12, 13, 14, 15, 16, 17, 18, 19, 20, 21]],
      vstack_runoff = [[0, 0, 0, 1, 0, 0, 0, 0, 2, 0, 0, 0]],
      vstack_evapo = [[5, 5, 5, 5, 5, 5, 6, 6, 6, 6, 6, 6]],
      vstack_subrunoff = [[1, 1, 1, 1, 1, 1, 2, 2, 2, 2, 2, 2]],
      vstack_percol = [[3, 3, 3, 3, 3, 3, 4, 4, 4, 4, 4, 4]],
      vstack_rechg = [[9, 9, 9, 9, 9, 9, 0, 0, 0, 0, 0, 0]],
      precip = Some [''10'', ''11'', ''12'', ''13'', ''14'', ''15'', ''16'', ''17'',
                     ''18'', ''19'', ''20'', ''21''],
      runoff = Some [''0'', ''0'', ''0'', ''1'', ''0'', ''0'', ''0'', ''0'', ''2'',
                     ''0'', ''0'', ''0''],
      evapo = Some [''5'', ''5'', ''5'', ''5'', ''5'', ''5'', ''6'', ''6'', ''6'',
                    ''6'', ''6'', ''6''],
      subrunoff = Some [''1'', ''1'', ''1'', ''1'', ''1'', ''1'', ''2'', ''2'', ''2'',
                        ''2'', ''2'', ''2''],
      percol = Some [''3'', ''3'', ''3'', ''3'', ''3'', ''3'', ''4'', ''4'', ''4'',
                     ''4'', ''4'', ''4''],
      rechg = Some [''9'', ''9'', ''9'', ''9'', ''9'', ''9'', ''0'', ''0'', ''0'',
                    ''0'', ''0'', ''0'']\<rparr>"

text \<open>
  Rows of a daily report. A \<^emph>\<open>quiet\<close> row is empty or has no year marker; a \<^emph>\<open>marker\<close>
  row announces the year \<open>y\<close>; a \<^emph>\<open>data\<close> row has no marker and its nine fields convert,
  the first one to the day number \<open>day\<close>; a \<^emph>\<open>skipped\<close> row is a quiet row of which a
  field does not convert. In all of them a labelled header count, if the row has one,
  converts to an integer. \<open>row_kind\<close> tells a data row with its day number from a
  skipped row, and \<open>days_of\<close> lists the day numbers of a sequence of such rows.
\<close>

definition header_ok :: "string \<Rightarrow> bool" where
  "header_ok line =
     (if sublist ''TOTAL NUMBER OF LAYERS'' line \<or> sublist ''TOTAL NUMBER OF SUBPROFILES'' line
      then (case int_of_last_token line of Inl e \<Rightarrow> False | Inr n \<Rightarrow> True)
      else True)"

definition quiet_row :: "string list \<Rightarrow> bool" where
  "quiet_row row \<longleftrightarrow>
     row = [] \<or> (\<not> sublist ''DAILY OUTPUT FOR YEAR'' (hd row) \<and> header_ok (hd row))"

definition marker_row :: "string list \<Rightarrow> int \<Rightarrow> bool" where
  "marker_row row y \<longleftrightarrow>
     row \<noteq> [] \<and> sublist ''DAILY OUTPUT FOR YEAR'' (hd row) \<and> header_ok (hd row) \<and>
     int_of_last_token (hd row) = Inr y"

definition data_row :: "(string \<Rightarrow> 'w option) \<Rightarrow> string list \<Rightarrow> int \<Rightarrow> bool" where
  "data_row pyfloat row day \<longleftrightarrow>
     row \<noteq> [] \<and> \<not> sublist ''DAILY OUTPUT FOR YEAR'' (hd row) \<and> header_ok (hd row) \<and>
     (case daily_fields pyfloat (hd row) of None \<Rightarrow> False | Some flds \<Rightarrow> fst flds = day)"

definition skipped_row :: "(string \<Rightarrow> 'w option) \<Rightarrow> string list \<Rightarrow> bool" where
  "skipped_row pyfloat row \<longleftrightarrow>
     row = [] \<or> (\<not> sublist ''DAILY OUTPUT FOR YEAR'' (hd row) \<and> header_ok (hd row) \<and>
       daily_fields pyfloat (hd row) = None)"

definition row_kind :: "(string \<Rightarrow> 'w option) \<Rightarrow> string list \<Rightarrow> int option \<Rightarrow> bool" where
  "row_kind pyfloat row k =
     (case k of None \<Rightarrow> skipped_row pyfloat row | Some day \<Rightarrow> data_row pyfloat row day)"

definition days_of :: "int option list \<Rightarrow> int list" where
  "days_of ks = concat (map (\<lambda>k. case k of None \<Rightarrow> [] | Some day \<Rightarrow> [day]) ks)"

definition same_arrays :: "'w daily_state \<Rightarrow> 'w daily_state \<Rightarrow> bool" where
  "same_arrays st st' \<longleftrightarrow>
     arr_years_d st' = arr_years_d st \<and> arr_days st' = arr_days st \<and>
     arr_rain st' = arr_rain st \<and> arr_ru st' = arr_ru st \<and> arr_et st' = arr_et st \<and>
     arr_ezone st' = arr_ezone st \<and> arr_headfirst st' = arr_headfirst st \<and>
     arr_drainfirst st' = arr_drainfirst st \<and> arr_leakfirst st' = arr_leakfirst st \<and>
     arr_leaklast st' = arr_leaklast st"

section \<open>The batch runner\<close>

text \<open>
  What \<^verbatim>\<open>run_help_singlecell\<close> acts on: the files on disk, each by its rows, and the
  calls of \<^verbatim>\<open>HELP3O.run_simulation\<close> made so far, each by its parameter tuple. The
  simulator is a parameter: given the tuple and the files it returns the files it leaves
  and the exception it raises, if any.
\<close>

record world =
  files :: "string \<Rightarrow> csv option"
  simulations :: "string list list"

type_synonym simulator =
  "string list \<Rightarrow> (string \<Rightarrow> csv option) \<Rightarrow> error option \<times> (string \<Rightarrow> csv option)"

definition run_simulation :: "simulator \<Rightarrow> string list \<Rightarrow> world \<Rightarrow> error option \<times> world" where
  "run_simulation sim outparam w =
     (case sim outparam (files w) of
        (r, fs) \<Rightarrow> (r, \<lparr>files = fs, simulations = simulations w @ [outparam]\<rparr>))"

text \<open>
  \<^verbatim>\<open>run_help_singlecell\<close>. An exception leaves the world as it is when it is raised, so the
  world is returned beside the result. \<^verbatim>\<open>outparam[5]\<close> raises \<^verbatim>\<open>IndexError\<close> on a short
  tuple, and \<^verbatim>\<open>open\<close> raises \<^verbatim>\<open>FileNotFoundError\<close> when the simulator left no file.
\<close>

definition run_help_singlecell ::
  "simulator \<Rightarrow> (int \<Rightarrow> 16 word) \<Rightarrow> (string \<Rightarrow> 'v option) \<Rightarrow> 'v \<Rightarrow> 'k \<times> string list \<Rightarrow> world
     \<Rightarrow> (error + 'k \<times> ('v::zero) table) \<times> world" where
  "run_help_singlecell sim u16 f32 nan item w =
     (case item of (cellname, outparam) \<Rightarrow>
        if length outparam \<le> 5 then (Inl IndexError, w)
        else
          (case (if files w (outparam ! 5) = None then run_simulation sim outparam w
                 else (None, w)) of
             (Some e, w1) \<Rightarrow> (Inl e, w1)
           | (None, w1) \<Rightarrow>
               (case files w1 (outparam ! 5) of
                  None \<Rightarrow> (Inl FileNotFoundError, w1)
                | Some csvread \<Rightarrow>
                    (case read_monthly_help_output u16 f32 nan csvread of
                       Inl e \<Rightarrow> (Inl e, w1)
                     | Inr results \<Rightarrow>
                         (Inr (cellname, results),
                          w1\<lparr>files := (files w1)(outparam ! 5 := None)\<rparr>)))))"

text \<open>
  \<^verbatim>\<open>run_help_allcells\<close>. The pool is one worker that takes the items of \<^verbatim>\<open>cellparams\<close> in
  the order of the list: a run with \<^verbatim>\<open>ncore = 1\<close>, and any run in which no two calls
  overlap. The first exception ends the batch. The progress report is printed, not
  returned, and \<^verbatim>\<open>time.clock\<close> is taken to exist, as it does before Python 3.8.
\<close>

fun run_cells ::
  "simulator \<Rightarrow> (int \<Rightarrow> 16 word) \<Rightarrow> (string \<Rightarrow> 'v option) \<Rightarrow> 'v \<Rightarrow> ('k \<times> string list) list
     \<Rightarrow> ('k \<Rightarrow> ('v::zero) table option) \<Rightarrow> world
     \<Rightarrow> (error + ('k \<Rightarrow> 'v table option)) \<times> world" where
  "run_cells sim u16 f32 nan [] output w = (Inr output, w)"
| "run_cells sim u16 f32 nan (item # items) output w =
     (case run_help_singlecell sim u16 f32 nan item w of
        (Inl e, w1) \<Rightarrow> (Inl e, w1)
      | (Inr cell, w1) \<Rightarrow> run_cells sim u16 f32 nan items (output(fst cell \<mapsto> snd cell)) w1)"

definition run_help_allcells ::
  "simulator \<Rightarrow> (int \<Rightarrow> 16 word) \<Rightarrow> (string \<Rightarrow> 'v option) \<Rightarrow> 'v \<Rightarrow> ('k \<times> string list) list \<Rightarrow> world
     \<Rightarrow> (error + ('k \<Rightarrow> ('v::zero) table option)) \<times> world" where
  "run_help_allcells sim u16 f32 nan cellparams w = run_cells sim u16 f32 nan cellparams Map.empty w"

text \<open>
  The table that the output file of a parameter tuple holds, if the tuple has an output
  path, the file exists and the parser returns.
\<close>

definition parsed_output ::
  "(int \<Rightarrow> 16 word) \<Rightarrow> (string \<Rightarrow> 'v option) \<Rightarrow> 'v \<Rightarrow> world \<Rightarrow> string list \<Rightarrow> ('v::zero) table option" where
  "parsed_output u16 f32 nan w outparam =
     (if length outparam \<le> 5 then None
      else (case files w (outparam ! 5) of
              None \<Rightarrow> None
            | Some csvread \<Rightarrow>
                (case read_monthly_help_output u16 f32 nan csvread of
                   Inl e \<Rightarrow> None
                 | Inr results \<Rightarrow> Some results)))"

definition output_path :: "'k \<times> string list \<Rightarrow> string" where
  "output_path item = snd item ! 5"

definition truncated_report :: csv where
  "truncated_report =
     [[''MONTHLY TOTALS (MM) FOR YEAR 2001''],
      [''PRECIPITATION  10 11 12 13 14 15'']]"

definition cell_1 :: "string \<times> string list" where
  "cell_1 = (''cell 1'', [''c.D4'', ''c.D7'', ''c.D13'', ''c.D11'', ''c.D10'', ''cell1.OUT''])"

definition cell_2 :: "string \<times> string list" where
  "cell_2 = (''cell 2'', [''c.D4'', ''c.D7'', ''c.D13'', ''c.D11'', ''c.D10'', ''cell2.OUT''])"

definition world_truncated :: world where
  "world_truncated = \<lparr>files = Map.empty(''cell1.OUT'' \<mapsto> truncated_report), simulations = []\<rparr>"

definition world_complete :: world where
  "world_complete =
     \<lparr>files = Map.empty(''cell1.OUT'' \<mapsto> monthly_example, ''cell2.OUT'' \<mapsto> monthly_example),
      simulations = []\<rparr>"

definition no_simulator :: simulator where
  "no_simulator outparam fs = (Some SimulatorError, fs)"

section \<open>CWEEDS datasets and their merge\<close>

text \<open>
  The dictionary that \<^verbatim>\<open>read_cweeds_file\<close> returns: six parallel arrays, the header of a
  WY3 file if there is one, and the two format tags. \<open>'t\<close> is the type of the Excel
  dates in \<^verbatim>\<open>Time\<close>, of which only the order is used, and \<open>'v\<close> the float type.
\<close>

record 'v cweeds_header =
  HORZ_version :: string
  Location :: string
  Province :: string
  Country :: string
  Station_ID :: string
  Latitude :: 'v
  Longitude :: 'v
  Time_Zone :: 'v
  Elevation :: 'v

record ('t, 'v) cweeds =
  Years :: "int list"
  Months :: "int list"
  Days :: "int list"
  Hours :: "int list"
  Time :: "'t list"
  Irradiance :: "'v list"
  header :: "'v cweeds_header option"
  Time_Format :: string
  CWEEDS_Format :: string

text \<open>
  \<^verbatim>\<open>np.unique\<close> sorts and drops repeated neighbours. \<^verbatim>\<open>np.digitize(x, bins, right=True)\<close>
  on increasing bins gives for each \<open>x\<close> the index \<open>i\<close> with
  \<open>bins[i-1] < x \<le> bins[i]\<close>, the number of bins below \<open>x\<close>.
\<close>

definition np_unique :: "('t::linorder) list \<Rightarrow> 't list" where
  "np_unique xs = remdups_adj (sort xs)"

definition digitize_right :: "('t::linorder) list \<Rightarrow> 't list \<Rightarrow> nat list" where
  "digitize_right xs bins = map (\<lambda>x. length (filter (\<lambda>b. b < x) bins)) xs"

text \<open>
  \<^verbatim>\<open>a[indexes] = values\<close> with an array of indexes: the values are stored one after the
  other, so the last value stored at an index stays. An index out of range raises
  \<^verbatim>\<open>IndexError\<close>; values that are neither as many as the indexes nor one value to
  repeat raise \<^verbatim>\<open>ValueError\<close>.
\<close>

fun scatter :: "'a list \<Rightarrow> nat list \<Rightarrow> 'a list \<Rightarrow> 'a list" where
  "scatter a (i # is) (v # vs) = scatter (a[i := v]) is vs"
| "scatter a is vs = a"

definition setitem :: "'a list \<Rightarrow> nat list \<Rightarrow> 'a list \<Rightarrow> error + 'a list" where
  "setitem a indexes vals =
     (if list_ex (\<lambda>i. length a \<le> i) indexes then Inl IndexError
      else if length vals = length indexes then Inr (scatter a indexes vals)
      else if length vals = 1 then
        Inr (scatter a indexes (replicate (length indexes) (hd vals)))
      else Inl ValueError)"

text \<open>One round of \<^verbatim>\<open>for dataset in [wy2_df, wy3_df]\<close>, with its five assignments.\<close>

definition merge_dataset ::
  "('t::linorder, 'v) cweeds \<Rightarrow> ('t, 'v) cweeds \<Rightarrow> error + ('t, 'v) cweeds" where
  "merge_dataset wy23_df dataset =
     (let indexes = digitize_right (Time dataset) (Time wy23_df) in
      ebind (setitem (Years wy23_df) indexes (Years dataset)) (\<lambda>a_years.
      ebind (setitem (Months wy23_df) indexes (Months dataset)) (\<lambda>a_months.
      ebind (setitem (Days wy23_df) indexes (Days dataset)) (\<lambda>a_days.
      ebind (setitem (Hours wy23_df) indexes (Hours dataset)) (\<lambda>a_hours.
      ebind (setitem (Irradiance wy23_df) indexes (Irradiance dataset)) (\<lambda>a_irradiance.
        Inr (wy23_df\<lparr>Years := a_years, Months := a_months, Days := a_days,
                      Hours := a_hours, Irradiance := a_irradiance\<rparr>)))))))"

text \<open>
  \<^verbatim>\<open>join_daily_cweeds_wy2_and_wy3\<close>. The three assertions come first; copying the header
  raises \<^verbatim>\<open>KeyError\<close> when the WY3 dataset has none. \<^verbatim>\<open>np.empty\<close> gives arrays of
  arbitrary content, here \<open>junk_int\<close> and \<open>junk_float\<close>.
\<close>

definition join_daily_cweeds_wy2_and_wy3 ::
  "int \<Rightarrow> 'v \<Rightarrow> ('t::linorder, 'v) cweeds \<Rightarrow> ('t, 'v) cweeds \<Rightarrow> error + ('t, 'v) cweeds" where
  "join_daily_cweeds_wy2_and_wy3 junk_int junk_float wy2_df wy3_df =
     (if CWEEDS_Format wy2_df \<noteq> ''WY2'' then Inl AssertionError
      else if CWEEDS_Format wy3_df \<noteq> ''WY3'' then Inl AssertionError
      else if Time_Format wy2_df \<noteq> Time_Format wy3_df then Inl AssertionError
      else
        (case header wy3_df of
           None \<Rightarrow> Inl KeyError
         | Some h \<Rightarrow>
             (let time_wy23 = sort (np_unique (Time wy2_df @ Time wy3_df));
                  n = length time_wy23
              in ebind (merge_dataset
                          \<lparr>Years = replicate n junk_int, Months = replicate n junk_int,
                           Days = replicate n junk_int, Hours = replicate n junk_int,
                           Time = time_wy23, Irradiance = replicate n junk_float,
                           header = Some h, Time_Format = Time_Format wy3_df,
                           CWEEDS_Format = ''WY2+WY3''\<rparr>
                          wy2_df)
                   (\<lambda>wy23_df. merge_dataset wy23_df wy3_df))))"

text \<open>
  The invariant of a dataset, the row of a dataset at an index, and the indexes of a
  time axis that hold the last occurrence of their coordinate.
\<close>

definition cweeds_aligned :: "('t, 'v) cweeds \<Rightarrow> bool" where
  "cweeds_aligned d \<longleftrightarrow>
     length (Years d) = length (Time d) \<and> length (Months d) = length (Time d) \<and>
     length (Days d) = length (Time d) \<and> length (Hours d) = length (Time d) \<and>
     length (Irradiance d) = length (Time d)"

definition scattered :: "('t::linorder, 'v) cweeds \<Rightarrow> ('t, 'v) cweeds \<Rightarrow> ('t, 'v) cweeds" where
  "scattered acc d =
     (let idx = digitize_right (Time d) (Time acc) in
      acc\<lparr>Years := scatter (Years acc) idx (Years d),
          Months := scatter (Months acc) idx (Months d),
          Days := scatter (Days acc) idx (Days d),
          Hours := scatter (Hours acc) idx (Hours d),
          Irradiance := scatter (Irradiance acc) idx (Irradiance d)\<rparr>)"

definition empty_merged ::
  "int \<Rightarrow> 'v \<Rightarrow> 'v cweeds_header \<Rightarrow> ('t::linorder, 'v) cweeds \<Rightarrow> ('t, 'v) cweeds
     \<Rightarrow> ('t, 'v) cweeds" where
  "empty_merged junk_int junk_float h wy2_df wy3_df =
     (let time_wy23 = sort (np_unique (Time wy2_df @ Time wy3_df));
          n = length time_wy23
      in \<lparr>Years = replicate n junk_int, Months = replicate n junk_int,
          Days = replicate n junk_int, Hours = replicate n junk_int,
          Time = time_wy23, Irradiance = replicate n junk_float,
          header = Some h, Time_Format = Time_Format wy3_df,
          CWEEDS_Format = ''WY2+WY3''\<rparr>)"

definition row_at :: "('t, 'v) cweeds \<Rightarrow> nat \<Rightarrow> int \<times> int \<times> int \<times> int \<times> 'v" where
  "row_at d j = (Years d ! j, Months d ! j, Days d ! j, Hours d ! j, Irradiance d ! j)"

definition appears_once :: "('t, 'v) cweeds \<Rightarrow> 't \<Rightarrow> int \<times> int \<times> int \<times> int \<times> 'v \<Rightarrow> bool" where
  "appears_once m t r \<longleftrightarrow>
     (\<exists>p < length (Time m). Time m ! p = t \<and> row_at m p = r \<and>
        (\<forall>q < length (Time m). Time m ! q = t \<longrightarrow> q = p))"

definition example_header :: "int cweeds_header" where
  "example_header =
     \<lparr>HORZ_version = ''CWEEDS2011'', Location = ''MONTREAL'', Province = ''QC'',
      Country = ''CAN'', Station_ID = ''7025250'', Latitude = 45, Longitude = -73,
      Time_Zone = -5, Elevation = 36\<rparr>"

definition wy2_example :: "(int, int) cweeds" where
  "wy2_example =
     \<lparr>Years = [2000, 2000], Months = [1, 1], Days = [1, 2], Hours = [0, 0],
      Time = [36526, 36527], Irradiance = [10, 20], header = None,
      Time_Format = ''daily'', CWEEDS_Format = ''WY2''\<rparr>"

definition wy3_example :: "(int, int) cweeds" where
  "wy3_example =
     \<lparr>Years = [2000, 2000], Months = [1, 1], Days = [2, 3], Hours = [0, 0],
      Time = [36527, 36528], Irradiance = [25, 30], header = Some example_header,
      Time_Format = ''daily'', CWEEDS_Format = ''WY3''\<rparr>"

definition merged_example :: "(int, int) cweeds" where
  "merged_example =
     \<lparr>Years = [2000, 2000, 2000], Months = [1, 1, 1], Days = [1, 2, 3], Hours = [0, 0, 0],
      Time = [36526, 36527, 36528], Irradiance = [10, 25, 30], header = Some example_header,
      Time_Format = ''daily'', CWEEDS_Format = ''WY2+WY3''\<rparr>"

definition last_occurrence :: "'t list \<Rightarrow> nat \<Rightarrow> bool" where
  "last_occurrence ts j \<longleftrightarrow> j < length ts \<and> ts ! j \<notin> set (drop (Suc j) ts)"

section \<open>Reading a CWEEDS file\<close>

text \<open>
  The extension of \<^verbatim>\<open>osp.splitext\<close> on a POSIX path: it starts at the last dot of the last
  component, unless only dots stand before that dot in the component.
\<close>

definition splitext_ext :: "string \<Rightarrow> string" where
  "splitext_ext path =
     (let base = rev (takeWhile (\<lambda>c. c \<noteq> CHR ''/'') (rev path));
          stem = dropWhile (\<lambda>c. c = CHR ''.'') base
      in if CHR ''.'' \<in> set stem
         then CHR ''.'' # rev (takeWhile (\<lambda>c. c \<noteq> CHR ''.'') (rev stem))
         else [])"

text \<open>
  The header row of a WY3 file: nine fields read one after the other, four of them
  through \<^verbatim>\<open>float\<close>. A missing field raises \<^verbatim>\<open>IndexError\<close>.
\<close>

definition field_at :: "string list \<Rightarrow> nat \<Rightarrow> error + string" where
  "field_at header_list i = (if i < length header_list then Inr (header_list ! i) else Inl IndexError)"

definition float_at :: "(string \<Rightarrow> 'v option) \<Rightarrow> string list \<Rightarrow> nat \<Rightarrow> error + 'v" where
  "float_at pyfloat header_list i =
     ebind (field_at header_list i)
       (\<lambda>s. case pyfloat s of None \<Rightarrow> Inl ValueError | Some x \<Rightarrow> Inr x)"

definition cweeds_header_of ::
  "(string \<Rightarrow> 'v option) \<Rightarrow> string list \<Rightarrow> error + 'v cweeds_header" where
  "cweeds_header_of pyfloat header_list =
     ebind (field_at header_list 0) (\<lambda>f0.
     ebind (field_at header_list 1) (\<lambda>f1.
     ebind (field_at header_list 2) (\<lambda>f2.
     ebind (field_at header_list 3) (\<lambda>f3.
     ebind (field_at header_list 4) (\<lambda>f4.
     ebind (float_at pyfloat header_list 5) (\<lambda>f5.
     ebind (float_at pyfloat header_list 6) (\<lambda>f6.
     ebind (float_at pyfloat header_list 7) (\<lambda>f7.
     ebind (float_at pyfloat header_list 8) (\<lambda>f8.
       Inr \<lparr>HORZ_version = f0, Location = f1, Province = f2, Country = f3, Station_ID = f4,
            Latitude = f5, Longitude = f6, Time_Zone = f7, Elevation = f8\<rparr>)))))))))"

text \<open>
  One round of the loop over the data rows. \<open>xldate\<close> is
  \<^verbatim>\<open>xldate_from_datetime_tuple((year, month, day, hour, 0, 0), 0)\<close>, \<open>None\<close> where xlrd
  raises, and \<open>div1000\<close> is the division \<^verbatim>\<open>x/1000\<close> of a float by the integer 1000.
\<close>

definition cweeds_row ::
  "(string \<Rightarrow> 'v option) \<Rightarrow> ('v \<Rightarrow> 'v) \<Rightarrow> (int \<Rightarrow> int \<Rightarrow> int \<Rightarrow> int \<Rightarrow> 't option) \<Rightarrow> nat
     \<Rightarrow> string list \<Rightarrow> error + (int \<times> int \<times> int \<times> int \<times> 't \<times> 'v)" where
  "cweeds_row pyfloat div1000 xldate char_offset line =
     (if line = [] then Inl IndexError
      else
        (case py_int (slice 6 10 (drop char_offset (hd line))) of
           None \<Rightarrow> Inl ValueError
         | Some y \<Rightarrow>
        (case py_int (slice 10 12 (drop char_offset (hd line))) of
           None \<Rightarrow> Inl ValueError
         | Some m \<Rightarrow>
        (case py_int (slice 12 14 (drop char_offset (hd line))) of
           None \<Rightarrow> Inl ValueError
         | Some d \<Rightarrow>
        (case py_int (slice 14 16 (drop char_offset (hd line))) of
           None \<Rightarrow> Inl ValueError
         | Some h \<Rightarrow>
        (case pyfloat (slice 20 24 (drop char_offset (hd line))) of
           None \<Rightarrow> Inl ValueError
         | Some x \<Rightarrow>
        (case xldate y m d (h - 1) of
           None \<Rightarrow> Inl XLDateError
         | Some t \<Rightarrow> Inr (y, m, d, h - 1, t, div1000 x))))))))"

fun cweeds_rows ::
  "(string \<Rightarrow> 'v option) \<Rightarrow> ('v \<Rightarrow> 'v) \<Rightarrow> (int \<Rightarrow> int \<Rightarrow> int \<Rightarrow> int \<Rightarrow> 't option) \<Rightarrow> nat
     \<Rightarrow> csv \<Rightarrow> error + (int \<times> int \<times> int \<times> int \<times> 't \<times> 'v) list" where
  "cweeds_rows pyfloat div1000 xldate char_offset [] = Inr []"
| "cweeds_rows pyfloat div1000 xldate char_offset (line # reader) =
     (case cweeds_row pyfloat div1000 xldate char_offset line of
        Inl e \<Rightarrow> Inl e
      | Inr r \<Rightarrow>
          (case cweeds_rows pyfloat div1000 xldate char_offset reader of
             Inl e \<Rightarrow> Inl e
           | Inr rs \<Rightarrow> Inr (r # rs)))"

text \<open>\<^verbatim>\<open>x.reshape(len(x)//k, k)\<close>, for an array whose length is a multiple of \<open>k\<close>.\<close>

definition reshape_rows :: "nat \<Rightarrow> 'a list \<Rightarrow> 'a list list" where
  "reshape_rows k xs = map (\<lambda>i. take k (drop (i * k) xs)) [0..<length xs div k]"

text \<open>
  The conversion to daily values, from the assertion on. \<open>npsum\<close> is the float that
  \<^verbatim>\<open>np.sum\<close> gives for one row of the reshaped array, a function of the 24 floats of the
  row in their order. The zeros of \<^verbatim>\<open>Hours\<close> are written as integers.
\<close>

definition format_to_daily_df ::
  "('v list \<Rightarrow> 'v) \<Rightarrow> ('t, 'v) cweeds \<Rightarrow> 'v cweeds_header option \<Rightarrow> string
     \<Rightarrow> error + ('t, 'v) cweeds" where
  "format_to_daily_df npsum hourly_df header_df ext =
     (if length (Irradiance hourly_df) mod 24 \<noteq> 0 then Inl AssertionError
      else
        Inr \<lparr>Years = map hd (reshape_rows 24 (Years hourly_df)),
             Months = map hd (reshape_rows 24 (Months hourly_df)),
             Days = map hd (reshape_rows 24 (Days hourly_df)),
             Hours = replicate (length (Irradiance hourly_df) div 24) 0,
             Time = map hd (reshape_rows 24 (Time hourly_df)),
             Irradiance = map npsum (reshape_rows 24 (Irradiance hourly_df)),
             header = header_df, Time_Format = ''daily'', CWEEDS_Format = ext\<rparr>)"

text \<open>
  \<^verbatim>\<open>read_cweeds_file\<close>, on the name of the file and the rows that \<^verbatim>\<open>csv.reader\<close> gives.
  \<open>cweeds_ext\<close> is the extension without its dots, \<open>cweeds_data\<close> the rows left when the
  header row of a WY3 file is taken off, and \<open>hourly_of\<close> the hourly dictionary filled by
  the loop.
\<close>

definition cweeds_ext :: "string \<Rightarrow> string" where
  "cweeds_ext filename = filter (\<lambda>c. c \<noteq> CHR ''.'') (splitext_ext filename)"

definition cweeds_data :: "string \<Rightarrow> csv \<Rightarrow> csv" where
  "cweeds_data filename reader = (if cweeds_ext filename = ''WY3'' then tl reader else reader)"

definition hourly_of :: "(int \<times> int \<times> int \<times> int \<times> 't \<times> 'v) list \<Rightarrow> ('t, 'v) cweeds" where
  "hourly_of rs =
     \<lparr>Years = map (\<lambda>(y, m, d, h, t, x). y) rs,
      Months = map (\<lambda>(y, m, d, h, t, x). m) rs,
      Days = map (\<lambda>(y, m, d, h, t, x). d) rs,
      Hours = map (\<lambda>(y, m, d, h, t, x). h) rs,
      Time = map (\<lambda>(y, m, d, h, t, x). t) rs,
      Irradiance = map (\<lambda>(y, m, d, h, t, x). x) rs,
      header = None, Time_Format = '''', CWEEDS_Format = ''''\<rparr>"

definition read_cweeds_file ::
  "(string \<Rightarrow> 'v option) \<Rightarrow> ('v \<Rightarrow> 'v) \<Rightarrow> ('v list \<Rightarrow> 'v) \<Rightarrow> (int \<Rightarrow> int \<Rightarrow> int \<Rightarrow> int \<Rightarrow> 't option)
     \<Rightarrow> string \<Rightarrow> csv \<Rightarrow> bool \<Rightarrow> error + ('t, 'v) cweeds" where
  "read_cweeds_file pyfloat div1000 npsum xldate filename reader format_to_daily =
     (if cweeds_ext filename \<noteq> ''WY2'' \<and> cweeds_ext filename \<noteq> ''WY3'' then Inl ValueError
      else
        ebind (if cweeds_ext filename = ''WY3'' then
                 (case reader of
                    [] \<Rightarrow> Inl IndexError
                  | header_list # rest \<Rightarrow>
                      ebind (cweeds_header_of pyfloat header_list) (\<lambda>h. Inr (Some h)))
               else Inr None)
          (\<lambda>header_df.
        ebind (cweeds_rows pyfloat div1000 xldate
                 (if cweeds_ext filename = ''WY2'' then 0 else 2)
                 (cweeds_data filename reader))
          (\<lambda>rs.
             if format_to_daily then
               format_to_daily_df npsum (hourly_of rs) header_df (cweeds_ext filename)
             else
               Inr ((hourly_of rs)\<lparr>header := header_df, Time_Format := ''hourly'',
                      CWEEDS_Format := cweeds_ext filename\<rparr>))))"

text \<open>
  Stand-ins for \<^verbatim>\<open>float\<close> and for the Excel date in the evaluated examples: a float is
  read as an integer, and the date is a number that grows with the calendar. In the
  examples the division and the sum are those of the rational numbers.
\<close>

definition example_float :: "string \<Rightarrow> rat option" where
  "example_float s = map_option of_int (py_int s)"

definition example_div1000 :: "rat \<Rightarrow> rat" where
  "example_div1000 x = x / 1000"

definition example_xldate :: "int \<Rightarrow> int \<Rightarrow> int \<Rightarrow> int \<Rightarrow> int option" where
  "example_xldate y m d h = Some ((((y * 12 + m) * 31 + d) * 24) + h)"

definition cweeds_day :: csv where
  "cweeds_day =
     [[''702525200001010113670010  ''],
      [''702525200001010213670020  ''],
      [''702525200001010313670030  ''],
      [''702525200001010413670040  ''],
      [''702525200001010513670050  ''],
      [''702525200001010613670060  ''],
      [''702525200001010713670070  ''],
      [''702525200001010813670080  ''],
      [''702525200001010913670090  ''],
      [''702525200001011013670100  ''],
      [''702525200001011113670110  ''],
      [''702525200001011213670120  ''],
      [''702525200001011313670130  ''],
      [''702525200001011413670140  ''],
      [''702525200001011513670150  ''],
      [''702525200001011613670160  ''],
      [''702525200001011713670170  ''],
      [''702525200001011813670180  ''],
      [''702525200001011913670190  ''],
      [''702525200001012013670200  ''],
      [''702525200001012113670210  ''],
      [''702525200001012213670220  ''],
      [''702525200001012313670230  ''],
      [''702525200001012413670240  '']]"

definition cweeds_daily_example :: "(int, rat) cweeds" where
  "cweeds_daily_example =
     \<lparr>Years = [2000], Months = [1], Days = [1], Hours = [0], Time = [17856768],
      Irradiance = [3], header = None, Time_Format = ''daily'', CWEEDS_Format = ''WY2''\<rparr>"

section \<open>Writing the input files of HELP\<close>

text \<open>
  \<^verbatim>\<open>str\<close> of an integer, and the format specifications \<^verbatim>\<open>'{0:>w}'\<close> and \<^verbatim>\<open>'{0:<w}'\<close>: the
  text is padded with spaces up to the width \<open>w\<close> and never cut.
\<close>

fun digits_of :: "nat \<Rightarrow> string" where
  "digits_of n =
     (if n < 10 then [char_of (48 + n)] else digits_of (n div 10) @ [char_of (48 + n mod 10)])"

declare digits_of.simps [simp del]

definition str_int :: "int \<Rightarrow> string" where
  "str_int i = (if i < 0 then CHR ''-'' # digits_of (nat (- i)) else digits_of (nat i))"

definition rjust :: "nat \<Rightarrow> string \<Rightarrow> string" where
  "rjust w s = replicate (w - length s) CHR '' '' @ s"

definition ljust :: "nat \<Rightarrow> string \<Rightarrow> string" where
  "ljust w s = s @ replicate (w - length s) CHR '' ''"

definition format_int :: "nat \<Rightarrow> int \<Rightarrow> string" where
  "format_int w i = rjust w (str_int i)"

text \<open>
  \<^verbatim>\<open>'{0:>w.pf}'.format(x)\<close> on a finite float. A finite float is a rational number, and
  Python prints the decimal with \<open>p\<close> digits that is nearest to it, the even one of two
  that are equally near; a negative number keeps its sign when it is rounded to zero.
\<close>

definition round_half_even :: "rat \<Rightarrow> int" where
  "round_half_even x =
     (if x - of_int \<lfloor>x\<rfloor> < 1 / 2 then \<lfloor>x\<rfloor>
      else if 1 / 2 < x - of_int \<lfloor>x\<rfloor> then \<lfloor>x\<rfloor> + 1
      else if even \<lfloor>x\<rfloor> then \<lfloor>x\<rfloor> else \<lfloor>x\<rfloor> + 1)"

definition zfill :: "nat \<Rightarrow> string \<Rightarrow> string" where
  "zfill p s = replicate (p - length s) CHR ''0'' @ s"

definition format_f :: "nat \<Rightarrow> nat \<Rightarrow> rat \<Rightarrow> string" where
  "format_f w p x =
     rjust w
       ((if x < 0 then ''-'' else []) @
        digits_of (nat (round_half_even (\<bar>x\<bar> * 10 ^ p)) div 10 ^ p) @
        (if p = 0 then []
         else CHR ''.'' # zfill p (digits_of (nat (round_half_even (\<bar>x\<bar> * 10 ^ p)) mod 10 ^ p))))"

text \<open>
  \<^verbatim>\<open>save_content_to_csv\<close> with its default arguments: the file is opened for writing and
  gets the rows of \<^verbatim>\<open>fcontent\<close>, one line each. The files are those of the batch runner, a
  file being its rows; \<^verbatim>\<open>open\<close> is taken to succeed.
\<close>

definition save_content_to_csv ::
  "string \<Rightarrow> csv \<Rightarrow> (string \<Rightarrow> csv option) \<Rightarrow> (error + unit) \<times> (string \<Rightarrow> csv option)" where
  "save_content_to_csv fname fcontent fs = (Inr (), fs(fname := Some fcontent))"

text \<open>
  \<^verbatim>\<open>format_weather_header_for_HELP\<close>. \<open>ffmt w p\<close> is \<^verbatim>\<open>'{0:>w.pf}'.format\<close> on the floats
  \<open>'v\<close>.
\<close>

definition format_weather_header_for_HELP ::
  "(nat \<Rightarrow> nat \<Rightarrow> 'v \<Rightarrow> string) \<Rightarrow> int \<Rightarrow> int \<Rightarrow> string \<Rightarrow> 'v option \<Rightarrow> csv" where
  "format_weather_header_for_HELP ffmt itype iunits city lat =
     [[format_int 2 itype], [format_int 2 iunits], [ljust 40 (take 40 city)]] @
     (case lat of Some l \<Rightarrow> [[ffmt 6 2 l]] | None \<Rightarrow> [[]])"

text \<open>
  The loop over the years, which \<^verbatim>\<open>format_timeseries_for_HELP\<close> and
  \<^verbatim>\<open>save_data_to_HELP_format\<close> both have, statement for statement. \<open>np_where_eq\<close> is
  \<^verbatim>\<open>np.where(years == year)[0]\<close>, \<open>take_indexes\<close> is \<^verbatim>\<open>data[indexes]\<close>, which raises
  \<^verbatim>\<open>IndexError\<close> on an index past the end of \<open>data\<close>, and \<open>reshape_grid\<close> is
  \<^verbatim>\<open>reshape(37, 10).tolist()\<close>, which raises \<^verbatim>\<open>ValueError\<close> unless there are 370 values.
  The formats are the \<^verbatim>\<open>format\<close> methods of the two format strings.
\<close>

definition np_where_eq :: "int list \<Rightarrow> int \<Rightarrow> nat list" where
  "np_where_eq years yr = filter (\<lambda>i. years ! i = yr) [0..<length years]"

definition take_indexes :: "'v list \<Rightarrow> nat list \<Rightarrow> error + 'v list" where
  "take_indexes data indexes =
     (if list_all (\<lambda>i. i < length data) indexes then Inr (map (\<lambda>i. data ! i) indexes)
      else Inl IndexError)"

definition reshape_grid :: "'v list \<Rightarrow> error + 'v list list" where
  "reshape_grid xs = (if length xs = 37 * 10 then Inr (reshape_rows 10 xs) else Inl ValueError)"

definition format_line :: "(int \<Rightarrow> string) \<Rightarrow> ('v \<Rightarrow> string) \<Rightarrow> int \<Rightarrow> 'v list \<Rightarrow> string" where
  "format_line year_format data_format yr line_data =
     foldl (\<lambda>formated_line i. formated_line @ data_format (line_data ! i))
       (year_format yr) [0..<10]"

definition format_year ::
  "(int \<Rightarrow> string) \<Rightarrow> ('v \<Rightarrow> string) \<Rightarrow> int list \<Rightarrow> ('v::zero) list \<Rightarrow> int \<Rightarrow> error + csv" where
  "format_year year_format data_format years data yr =
     (if length (np_where_eq years yr) \<noteq> (if isleap yr then 366 else 365)
      then Inl AssertionError
      else
        ebind (take_indexes data (np_where_eq years yr)) (\<lambda>year_data.
        ebind (reshape_grid (year_data @ replicate (10 - length year_data mod 10) 0))
          (\<lambda>grid. Inr (map (\<lambda>line_data. [format_line year_format data_format yr line_data])
                      grid))))"

fun format_years ::
  "(int \<Rightarrow> string) \<Rightarrow> ('v \<Rightarrow> string) \<Rightarrow> int list \<Rightarrow> ('v::zero) list \<Rightarrow> int list \<Rightarrow> csv
     \<Rightarrow> error + csv" where
  "format_years year_format data_format years data [] fdata = Inr fdata"
| "format_years year_format data_format years data (yr # rest) fdata =
     ebind (format_year year_format data_format years data yr)
       (\<lambda>lines. format_years year_format data_format years data rest (fdata @ lines))"

definition format_timeseries_for_HELP ::
  "int list \<Rightarrow> ('v::zero) list \<Rightarrow> (int \<Rightarrow> string) \<Rightarrow> ('v \<Rightarrow> string) \<Rightarrow> error + csv" where
  "format_timeseries_for_HELP years data year_format data_format =
     format_years year_format data_format years data (np_unique years) []"

text \<open>
  \<^verbatim>\<open>save_data_to_HELP_format\<close>: the formats by the extension of the file name, the header,
  the loop over the years and, last, the writing of the file.
\<close>

definition help_formats :: "string \<Rightarrow> 'v option \<Rightarrow> error + nat \<times> nat \<times> nat" where
  "help_formats ext lat =
     (if ext = ''D4'' then Inr (10, 5, 1)
      else if ext = ''D7'' then Inr (5, 6, 1)
      else if ext = ''D13'' then (if lat = None then Inl ValueError else Inr (5, 6, 2))
      else Inl ValueError)"

definition save_data_to_HELP_format ::
  "(nat \<Rightarrow> nat \<Rightarrow> 'v \<Rightarrow> string) \<Rightarrow> string \<Rightarrow> int list \<Rightarrow> ('v::zero) list \<Rightarrow> string \<Rightarrow> 'v option
     \<Rightarrow> (string \<Rightarrow> csv option) \<Rightarrow> (error + unit) \<times> (string \<Rightarrow> csv option)" where
  "save_data_to_HELP_format ffmt filename years data city lat fs =
     (case help_formats (drop 1 (splitext_ext filename)) lat of
        Inl e \<Rightarrow> (Inl e, fs)
      | Inr (yw, dw, dp) \<Rightarrow>
          (case format_years (format_int yw) (ffmt dw dp) years data (np_unique years)
                  ([[format_int 2 3], [format_int 2 2], [ljust 40 (take 40 city)]] @
                   (if drop 1 (splitext_ext filename) = ''D13'' then [[ffmt 6 2 (the lat)]]
                    else [[]])) of
             Inl e \<Rightarrow> (Inl e, fs)
           | Inr fcontent \<Rightarrow> save_content_to_csv filename fcontent fs))"

text \<open>
  The three writers by kind of data, which add the extension to the file name when it is
  not there.
\<close>

definition save_to_HELP ::
  "string \<Rightarrow> csv \<Rightarrow> error + csv \<Rightarrow> (string \<Rightarrow> csv option)
     \<Rightarrow> (error + unit) \<times> (string \<Rightarrow> csv option)" where
  "save_to_HELP filename fheader fdata fs =
     (case fdata of
        Inl e \<Rightarrow> (Inl e, fs)
      | Inr rows \<Rightarrow> save_content_to_csv filename (fheader @ rows) fs)"

definition save_precip_to_HELP ::
  "(nat \<Rightarrow> nat \<Rightarrow> 'v \<Rightarrow> string) \<Rightarrow> string \<Rightarrow> int list \<Rightarrow> ('v::zero) list \<Rightarrow> string
     \<Rightarrow> (string \<Rightarrow> csv option) \<Rightarrow> (error + unit) \<times> (string \<Rightarrow> csv option)" where
  "save_precip_to_HELP ffmt filename years data city fs =
     save_to_HELP (if splitext_ext filename = ''.D4'' then filename else filename @ ''.D4'')
       (format_weather_header_for_HELP ffmt 3 2 city None)
       (format_timeseries_for_HELP years data (format_int 10) (ffmt 5 1)) fs"

definition save_airtemp_to_HELP ::
  "(nat \<Rightarrow> nat \<Rightarrow> 'v \<Rightarrow> string) \<Rightarrow> string \<Rightarrow> int list \<Rightarrow> ('v::zero) list \<Rightarrow> string
     \<Rightarrow> (string \<Rightarrow> csv option) \<Rightarrow> (error + unit) \<times> (string \<Rightarrow> csv option)" where
  "save_airtemp_to_HELP ffmt filename years data city fs =
     save_to_HELP (if splitext_ext filename = ''.D7'' then filename else filename @ ''.D7'')
       (format_weather_header_for_HELP ffmt 3 2 city None)
       (format_timeseries_for_HELP years data (format_int 5) (ffmt 6 1)) fs"

definition save_solrad_to_HELP ::
  "(nat \<Rightarrow> nat \<Rightarrow> 'v \<Rightarrow> string) \<Rightarrow> string \<Rightarrow> int list \<Rightarrow> ('v::zero) list \<Rightarrow> string \<Rightarrow> 'v option
     \<Rightarrow> (string \<Rightarrow> csv option) \<Rightarrow> (error + unit) \<times> (string \<Rightarrow> csv option)" where
  "save_solrad_to_HELP ffmt filename years data city lat fs =
     save_to_HELP (if splitext_ext filename = ''.D13'' then filename else filename @ ''.D13'')
       (format_weather_header_for_HELP ffmt 3 2 city lat)
       (format_timeseries_for_HELP years data (format_int 5) (ffmt 6 2)) fs"



chapter \<open>Properties\<close>

section \<open>The loops of the monthly parser\<close>

lemma block_loop_induct [consumes 1, case_names separator skip line]:
  assumes run: "block_loop csvread i st = Inr (j, st')"
    and sep: "\<And>i st. Suc i < length csvread \<Longrightarrow> csvread ! Suc i \<noteq> [] \<Longrightarrow>
        sublist ''**********'' (hd (csvread ! Suc i)) \<Longrightarrow> P i st (Suc i) st"
    and skip: "\<And>i st j st'. Suc i < length csvread \<Longrightarrow>
        csvread ! Suc i = [] \<or>
          (\<not> sublist ''**********'' (hd (csvread ! Suc i)) \<and> Suc (Suc i) < length csvread \<and>
           csvread ! Suc (Suc i) = []) \<Longrightarrow>
        block_loop csvread (Suc i) st = Inr (j, st') \<Longrightarrow> P (Suc i) st j st' \<Longrightarrow> P i st j st'"
    and line: "\<And>i st j st'. Suc (Suc i) < length csvread \<Longrightarrow> csvread ! Suc i \<noteq> [] \<Longrightarrow>
        \<not> sublist ''**********'' (hd (csvread ! Suc i)) \<Longrightarrow> csvread ! Suc (Suc i) \<noteq> [] \<Longrightarrow>
        block_loop csvread (Suc i)
          (block_line st (hd (csvread ! Suc i)) (hd (csvread ! Suc (Suc i)))) = Inr (j, st') \<Longrightarrow>
        P (Suc i) (block_line st (hd (csvread ! Suc i)) (hd (csvread ! Suc (Suc i)))) j st' \<Longrightarrow>
        P i st j st'"
  shows "P i st j st'"
  using run sep skip line
proof (induction csvread i st rule: block_loop.induct)
  case (1 csvread i st)
  note eq = block_loop.simps[of csvread i st]
  note run = "1.prems"(1) and sep = "1.prems"(2) and skip = "1.prems"(3) and line = "1.prems"(4)
  show ?case
  proof (cases "length csvread \<le> Suc i")
    case True
    with run eq show ?thesis by simp
  next
    case inr: False
    show ?thesis
    proof (cases "csvread ! Suc i = []")
      case True
      with inr run eq have r: "block_loop csvread (Suc i) st = Inr (j, st')" by simp
      have p: "P (Suc i) st j st'"
        by (rule "1.IH"(1)[OF inr True r sep skip line])
      from inr have lt: "Suc i < length csvread" by simp
      show ?thesis by (rule skip[OF lt disjI1[OF True] r p])
    next
      case ne: False
      show ?thesis
      proof (cases "sublist ''**********'' (hd (csvread ! Suc i))")
        case True
        with inr ne run eq have js: "j = Suc i" "st' = st" by simp_all
        from inr have lt: "Suc i < length csvread" by simp
        from sep[OF lt ne True, of st] js show ?thesis by simp
      next
        case nsep: False
        show ?thesis
        proof (cases "length csvread \<le> Suc (Suc i)")
          case True
          with inr ne nsep run eq show ?thesis by simp
        next
          case inr2: False
          show ?thesis
          proof (cases "csvread ! Suc (Suc i) = []")
            case True
            with inr ne nsep inr2 run eq
            have r: "block_loop csvread (Suc i) st = Inr (j, st')" by simp
            have p: "P (Suc i) st j st'"
              by (rule "1.IH"(2)[OF inr ne nsep inr2 True r sep skip line])
            from inr have lt: "Suc i < length csvread" by simp
            from inr2 have lt2: "Suc (Suc i) < length csvread" by simp
            show ?thesis
              by (rule skip[OF lt disjI2[OF conjI[OF nsep conjI[OF lt2 True]]] r p])
          next
            case False
            with inr ne nsep inr2 run eq
            have r: "block_loop csvread (Suc i)
                   (block_line st (hd (csvread ! Suc i)) (hd (csvread ! Suc (Suc i)))) =
                  Inr (j, st')"
              by simp
            have p: "P (Suc i) (block_line st (hd (csvread ! Suc i)) (hd (csvread ! Suc (Suc i)))) j st'"
              by (rule "1.IH"(3)[OF inr ne nsep inr2 False r sep skip line])
            from inr2 have lt2: "Suc (Suc i) < length csvread" by simp
            show ?thesis by (rule line[OF lt2 ne nsep False r p])
          qed
        qed
      qed
    qed
  qed
qed

lemma block_fold_simps [simp]:
  "block_fold st [] = st"
  "block_fold st ((l, n) # ps) = block_fold (block_line st l n) ps"
  by (simp_all add: block_fold_def)

lemma block_pairs_skip:
  "Suc i < j \<Longrightarrow> csvread ! Suc i = [] \<or> csvread ! Suc (Suc i) = [] \<Longrightarrow>
   block_pairs csvread i j = block_pairs csvread (Suc i) j"
  by (auto simp: block_pairs_def upt_conv_Cons)

lemma block_pairs_line:
  "Suc i < j \<Longrightarrow> csvread ! Suc i \<noteq> [] \<Longrightarrow> csvread ! Suc (Suc i) \<noteq> [] \<Longrightarrow>
   block_pairs csvread i j =
     (hd (csvread ! Suc i), hd (csvread ! Suc (Suc i))) # block_pairs csvread (Suc i) j"
  by (simp add: block_pairs_def upt_conv_Cons)

lemma block_loop_fold:
  assumes "block_loop csvread i st = Inr (j, st')"
  shows "st' = block_fold st (block_pairs csvread i j)"
  using assms
proof (induction rule: block_loop_induct)
  case (separator i st)
  show ?case by (simp add: block_pairs_def)
next
  case (skip i st j st')
  from skip(3) have "Suc i < j" by (rule block_loop_index [THEN conjunct1])
  with skip(2) have "block_pairs csvread i j = block_pairs csvread (Suc i) j"
    by (intro block_pairs_skip) auto
  with skip(4) show ?case by simp
next
  case (line i st j st')
  from line(5) have "Suc i < j" by (rule block_loop_index [THEN conjunct1])
  with line(2,4) have "block_pairs csvread i j =
     (hd (csvread ! Suc i), hd (csvread ! Suc (Suc i))) # block_pairs csvread (Suc i) j"
    by (intro block_pairs_line)
  with line(6) show ?case by simp
qed

lemma monthly_loop_invariant:
  assumes "monthly_loop f32 nan csvread i st = Inr st'" and "I st"
    and "\<And>i st j st1. I st \<Longrightarrow> monthly_block f32 nan csvread i st = Inr (j, st1) \<Longrightarrow> I st1"
  shows "I st'"
  using assms
proof (induction f32 nan csvread i st rule: monthly_loop.induct)
  case (1 f32 nan csvread i st)
  note eq = monthly_loop.simps[of f32 nan csvread i st]
  note run = "1.prems"(1) and inv = "1.prems"(2) and step = "1.prems"(3)
  show ?case
  proof (cases "length csvread \<le> i + 1")
    case True
    with run eq inv show ?thesis by simp
  next
    case inr: False
    show ?thesis
    proof (cases "csvread ! i = []")
      case True
      with inr run eq have r: "monthly_loop f32 nan csvread (i + 1) st = Inr st'" by simp
      show ?thesis by (rule "1.IH"(1)[OF inr True r inv step])
    next
      case ne: False
      show ?thesis
      proof (cases "sublist ''MONTHLY TOTALS'' (hd (csvread ! i))")
        case True
        with inr ne run eq obtain j st1 where
          b: "monthly_block f32 nan csvread i st = Inr (j, st1)" and
          r: "monthly_loop f32 nan csvread (j + 1) st1 = Inr st'"
          by (auto split: sum.splits)
        have "I st1" by (rule step[OF inv b])
        with "1.IH"(2)[OF inr ne True b refl r _ step] show ?thesis by simp
      next
        case nm: False
        show ?thesis
        proof (cases "sublist ''FINAL WATER STORAGE'' (hd (csvread ! i))")
          case True
          with inr ne nm run eq inv show ?thesis by simp
        next
          case False
          with inr ne nm run eq have r: "monthly_loop f32 nan csvread (i + 1) st = Inr st'"
            by simp
          show ?thesis by (rule "1.IH"(3)[OF inr ne nm False r inv step])
        qed
      qed
    qed
  qed
qed

lemma block_line_stacks: "same_stacks st (block_line st line nline)"
  by (simp add: same_stacks_def block_line_def)

lemma block_fold_stacks: "same_stacks st (block_fold st ps)"
proof (induction ps arbitrary: st)
  case Nil
  show ?case by (simp add: same_stacks_def)
next
  case (Cons p ps)
  obtain l n where p: "p = (l, n)" by (cases p)
  from Cons[of "block_line st l n"] block_line_stacks[of st l n] show ?case
    by (simp add: p same_stacks_def)
qed

lemma append_rows_stacks:
  assumes "append_rows f32 nan st = Inr st'"
  shows "arr_years st' = arr_years st \<and>
    length (vstack_precip st') = Suc (length (vstack_precip st)) \<and>
    length (vstack_runoff st') = Suc (length (vstack_runoff st)) \<and>
    length (vstack_evapo st') = Suc (length (vstack_evapo st)) \<and>
    length (vstack_subrunoff st') = Suc (length (vstack_subrunoff st)) \<and>
    length (vstack_percol st') = Suc (length (vstack_percol st)) \<and>
    length (vstack_rechg st') = Suc (length (vstack_rechg st))"
  using assms unfolding append_rows_def by (auto simp: ebind_eq_Inr)

lemma monthly_block_aligned:
  assumes "monthly_aligned st" and "monthly_block f32 nan csvread i st = Inr (j, st')"
  shows "monthly_aligned st'"
proof -
  from assms(2) obtain y st1 where
    loop: "block_loop csvread i
      (st\<lparr>arr_years := arr_years st @ [y], subrunoff := None, percol := None\<rparr>) = Inr (j, st1)"
    and app: "append_rows f32 nan st1 = Inr st'"
    unfolding monthly_block_def by (auto simp: ebind_eq_Inr)
  let ?st0 = "st\<lparr>arr_years := arr_years st @ [y], subrunoff := None, percol := None\<rparr>"
  have "same_stacks ?st0 st1"
    using block_loop_fold[OF loop] block_fold_stacks[of ?st0] by simp
  with assms(1) append_rows_stacks[OF app] show ?thesis
    by (simp add: monthly_aligned_def same_stacks_def)
qed

lemma monthly_loop_aligned:
  assumes "monthly_loop f32 nan csvread 0 monthly_init = Inr st"
  shows "monthly_aligned st"
proof (rule monthly_loop_invariant[where I = monthly_aligned, OF assms])
  show "monthly_aligned monthly_init"
    by (simp add: monthly_aligned_def monthly_init_def)
  show "monthly_aligned st1"
    if "monthly_aligned st0" and "monthly_block f32 nan csvread i st0 = Inr (j, st1)"
    for i st0 j st1
    using that by (rule monthly_block_aligned)
qed

lemma np_vstack_Inr: "np_vstack rows = Inr a \<Longrightarrow> a = rows"
  by (auto simp: np_vstack_def split: if_splits)

lemma astype_uint16_length: "astype_uint16 u16 xs = Inr ys \<Longrightarrow> length ys = length xs"
  by (auto simp: astype_uint16_def split: if_splits)

lemma astype_uint16_small:
  "list_all (\<lambda>x. - (2 ^ 63) \<le> x \<and> x < 2 ^ 63) xs \<Longrightarrow>
   astype_uint16 u16 xs = Inr (map word_of_int xs)"
  by (simp add: astype_uint16_def)

lemma read_monthly_Inr:
  assumes "read_monthly_help_output u16 f32 nan csvread = Inr tbl"
  obtains st a_years where "monthly_loop f32 nan csvread 0 monthly_init = Inr st"
    and "astype_uint16 u16 (arr_years st) = Inr a_years"
    and "tbl = [(''years'', U16 a_years),
            (''rain'', F32_2d (vstack_precip st)),
            (''runoff'', F32_2d (vstack_runoff st)),
            (''evapo'', F32_2d (vstack_evapo st)),
            (''sub-runoff'', F32_2d (vstack_subrunoff st)),
            (''percolation'', F32_2d (vstack_percol st)),
            (''recharge'', F32_2d (vstack_rechg st))]"
  using assms unfolding read_monthly_help_output_def
  by (auto simp: ebind_eq_Inr dest!: np_vstack_Inr)

lemma read_monthly_aligned:
  assumes "read_monthly_help_output u16 f32 nan csvread = Inr tbl"
  shows "table_aligned tbl"
proof -
  from assms obtain st a_years where st: "monthly_loop f32 nan csvread 0 monthly_init = Inr st"
    and ys: "astype_uint16 u16 (arr_years st) = Inr a_years"
    and tbl: "tbl = [(''years'', U16 a_years),
            (''rain'', F32_2d (vstack_precip st)),
            (''runoff'', F32_2d (vstack_runoff st)),
            (''evapo'', F32_2d (vstack_evapo st)),
            (''sub-runoff'', F32_2d (vstack_subrunoff st)),
            (''percolation'', F32_2d (vstack_percol st)),
            (''recharge'', F32_2d (vstack_rechg st))]"
    by (rule read_monthly_Inr)
  from monthly_loop_aligned[OF st] astype_uint16_length[OF ys] show ?thesis
    by (simp add: tbl table_aligned_def monthly_aligned_def)
qed

lemma daily_header_Inr:
  "daily_header st line = Inr st1 \<Longrightarrow> \<exists>a b. st1 = st\<lparr>nlay := a, nsub := b\<rparr>"
proof -
  assume h: "daily_header st line = Inr st1"
  have keep: "st = st\<lparr>nlay := nlay st, nsub := nsub st\<rparr>" by simp
  show ?thesis
  proof (cases "sublist ''TOTAL NUMBER OF LAYERS'' line")
    case True
    with h obtain n where "st1 = st\<lparr>nlay := Some n\<rparr>"
      by (auto simp: daily_header_def ebind_eq_Inr)
    then have "st1 = st\<lparr>nlay := Some n, nsub := nsub st\<rparr>" by simp
    then show ?thesis by blast
  next
    case nl: False
    show ?thesis
    proof (cases "sublist ''TOTAL NUMBER OF SUBPROFILES'' line")
      case True
      with nl h obtain n where "st1 = st\<lparr>nsub := Some n\<rparr>"
        by (auto simp: daily_header_def ebind_eq_Inr)
      then have "st1 = st\<lparr>nlay := nlay st, nsub := Some n\<rparr>" by simp
      then show ?thesis by blast
    next
      case False
      with nl h have "st1 = st" by (simp add: daily_header_def)
      with keep show ?thesis by metis
    qed
  qed
qed

lemma daily_append_aligned:
  "daily_aligned st \<Longrightarrow> daily_aligned (daily_append st y flds)"
  by (simp add: daily_append_def daily_aligned_def split_beta)

lemma daily_row_cases:
  assumes "daily_row pyfloat st row = Inr st'"
  obtains (nothing) a b where "st' = st\<lparr>nlay := a, nsub := b\<rparr>"
  | (marker) a b y where "row \<noteq> []" and "sublist ''DAILY OUTPUT FOR YEAR'' (hd row)"
      and "int_of_last_token (hd row) = Inr y"
      and "st' = st\<lparr>nlay := a, nsub := b, year := Some y, days_in_year := int (days_of_year y)\<rparr>"
  | (data) a b y flds where "row \<noteq> []" and "\<not> sublist ''DAILY OUTPUT FOR YEAR'' (hd row)"
      and "year st = Some y" and "daily_fields pyfloat (hd row) = Some flds"
      and "st' = daily_append (st\<lparr>nlay := a, nsub := b\<rparr>) y flds"
proof (cases "row = []")
  case True
  with assms have "st' = st\<lparr>nlay := nlay st, nsub := nsub st\<rparr>" by (simp add: daily_row_def)
  then show ?thesis by (rule nothing)
next
  case ne: False
  with assms obtain st1 where h: "daily_header st (hd row) = Inr st1"
    and rest: "(if sublist ''DAILY OUTPUT FOR YEAR'' (hd row) then
            ebind (int_of_last_token (hd row)) (\<lambda>y.
              Inr (st1\<lparr>year := Some y, days_in_year := int (days_of_year y)\<rparr>))
          else
            (case year st1 of
               None \<Rightarrow> Inr st1
             | Some y \<Rightarrow>
                 (case daily_fields pyfloat (hd row) of
                    None \<Rightarrow> Inr st1
                  | Some flds \<Rightarrow> Inr (daily_append st1 y flds)))) = Inr st'"
    by (auto simp: daily_row_def ebind_eq_Inr)
  from daily_header_Inr[OF h] obtain a b where st1: "st1 = st\<lparr>nlay := a, nsub := b\<rparr>" by blast
  show ?thesis
  proof (cases "sublist ''DAILY OUTPUT FOR YEAR'' (hd row)")
    case True
    with rest obtain y where yl: "int_of_last_token (hd row) = Inr y"
      and "st' = st1\<lparr>year := Some y, days_in_year := int (days_of_year y)\<rparr>"
      by (auto simp: ebind_eq_Inr)
    with st1 have "st' = st\<lparr>nlay := a, nsub := b, year := Some y,
        days_in_year := int (days_of_year y)\<rparr>" by simp
    from ne True yl this show ?thesis by (rule marker)
  next
    case nm: False
    show ?thesis
    proof (cases "year st1")
      case None
      with nm rest have "st' = st1" by simp
      with st1 have "st' = st\<lparr>nlay := a, nsub := b\<rparr>" by simp
      then show ?thesis by (rule nothing)
    next
      case (Some y)
      show ?thesis
      proof (cases "daily_fields pyfloat (hd row)")
        case None
        with nm rest Some have "st' = st1" by simp
        with st1 have "st' = st\<lparr>nlay := a, nsub := b\<rparr>" by simp
        then show ?thesis by (rule nothing)
      next
        case (Some flds)
        with nm rest \<open>year st1 = Some y\<close> have "st' = daily_append st1 y flds" by simp
        with st1 have e: "st' = daily_append (st\<lparr>nlay := a, nsub := b\<rparr>) y flds" by simp
        from st1 \<open>year st1 = Some y\<close> have yy: "year st = Some y" by simp
        from ne nm yy Some e show ?thesis by (rule data)
      qed
    qed
  qed
qed

lemma daily_row_aligned:
  assumes "daily_aligned st" and "daily_row pyfloat st row = Inr st'"
  shows "daily_aligned st'"
  using assms(2)
proof (cases rule: daily_row_cases)
  case (nothing a b)
  with assms(1) show ?thesis by (simp add: daily_aligned_def)
next
  case (marker a b y)
  with assms(1) show ?thesis by (simp add: daily_aligned_def)
next
  case (data a b y flds)
  from assms(1) have "daily_aligned (st\<lparr>nlay := a, nsub := b\<rparr>)"
    by (simp add: daily_aligned_def)
  with data(5) show ?thesis by (simp add: daily_append_aligned)
qed

lemma daily_loop_aligned:
  "daily_aligned st \<Longrightarrow> daily_loop pyfloat st rows = Inr st' \<Longrightarrow> daily_aligned st'"
proof (induction rows arbitrary: st)
  case Nil
  then show ?case by simp
next
  case (Cons row rows)
  from Cons.prems(2) obtain st1 where r: "daily_row pyfloat st row = Inr st1"
    and l: "daily_loop pyfloat st1 rows = Inr st'"
    by (auto split: sum.splits)
  from Cons.IH[OF daily_row_aligned[OF Cons.prems(1) r] l] show ?case .
qed

lemma read_daily_aligned:
  fixes pyfloat :: "string \<Rightarrow> 'w option"
  assumes "read_daily_help_output u16 pyfloat narrow csvread = Inr tbl"
  shows "table_aligned tbl"
proof -
  from assms obtain st a_years a_days where
    st: "daily_loop pyfloat daily_init csvread = Inr st"
    and ys: "astype_uint16 u16 (arr_years_d st) = Inr a_years"
    and ds: "astype_uint16 u16 (arr_days st) = Inr a_days"
    and tbl: "tbl = [(''years'', U16 a_years),
            (''days'', U16 a_days),
            (''rain'', F32 (map narrow (arr_rain st))),
            (''runoff'', F32 (map narrow (arr_ru st))),
            (''et'', F32 (map narrow (arr_et st))),
            (''ezone'', F32 (map narrow (arr_ezone st))),
            (''head first'', F32 (map narrow (arr_headfirst st))),
            (''drain first'', F32 (map narrow (arr_drainfirst st))),
            (''leak first'', F32 (map narrow (arr_leakfirst st))),
            (''leak last'', F32 (map narrow (arr_leaklast st)))]"
    unfolding read_daily_help_output_def by (auto simp: ebind_eq_Inr)
  have "daily_aligned (daily_init :: 'w daily_state)"
    by (simp add: daily_aligned_def daily_init_def)
  from daily_loop_aligned[OF this st] astype_uint16_length[OF ys] astype_uint16_length[OF ds]
  show ?thesis
    by (simp add: tbl table_aligned_def daily_aligned_def)
qed

lemma monthly_example_table:
  "read_monthly_help_output (\<lambda>x. 0) py_int (-1) monthly_example =
   Inr [(''years'', U16 [2001]),
      (''rain'', F32_2d [[10, 11, 12, 13, 14, 15, 16, 17, 18, 19, 20, 21]]),
      (''runoff'', F32_2d [[0, 0, 0, 1, 0, 0, 0, 0, 2, 0, 0, 0]]),
      (''evapo'', F32_2d [[5, 5, 5, 5, 5, 5, 6, 6, 6, 6, 6, 6]]),
      (''sub-runoff'', F32_2d [[1, 1, 1, 1, 1, 1, 2, 2, 2, 2, 2, 2]]),
      (''percolation'', F32_2d [[3, 3, 3, 3, 3, 3, 4, 4, 4, 4, 4, 4]]),
      (''recharge'', F32_2d [[9, 9, 9, 9, 9, 9, 0, 0, 0, 0, 0, 0]])]"
  by code_simp

lemma daily_example_table:
  "read_daily_help_output (\<lambda>x. 0) py_int (\<lambda>x. x) daily_example =
   Inr [(''years'', U16 [2001, 2001]),
      (''days'', U16 [364, 365]),
      (''rain'', F32 [1, 8]),
      (''runoff'', F32 [2, 9]),
      (''et'', F32 [3, 10]),
      (''ezone'', F32 [4, 11]),
      (''head first'', F32 [5, 12]),
      (''drain first'', F32 [6, 13]),
      (''leak first'', F32 [7, 14]),
      (''leak last'', F32 [7, 14])]"
  by code_simp

section \<open>Both parsers return aligned arrays\<close>

text \<open>
  Claim C9. Every table that \<^verbatim>\<open>read_monthly_help_output\<close> or \<^verbatim>\<open>read_daily_help_output\<close>
  returns satisfies the invariant of the data model: it has the key \<^verbatim>\<open>years\<close>, and every
  array of the table has the leading dimension of the array of years (the number of rows
  of a monthly array, the number of entries of a daily one).
\<close>

theorem parsers_return_aligned_tables:
  fixes f32 :: "string \<Rightarrow> ('v::zero) option" and pyfloat :: "string \<Rightarrow> 'w option"
    and narrow :: "'w \<Rightarrow> 'u"
  shows "(\<forall>tbl. read_monthly_help_output u16 f32 nan monthly_rows = Inr tbl \<longrightarrow> table_aligned tbl) \<and>
    (\<forall>tbl. read_daily_help_output u16 pyfloat narrow daily_rows = Inr tbl \<longrightarrow> table_aligned tbl)"
  using read_monthly_aligned read_daily_aligned by blast

theorem parsers_return_aligned_tables_witness:
  "(\<exists>tbl. read_monthly_help_output (\<lambda>x. 0) py_int (-1) monthly_example = Inr tbl \<and>
      map_of tbl ''years'' = Some (U16 [2001]) \<and> table_aligned tbl) \<and>
   (\<exists>tbl. read_daily_help_output (\<lambda>x. 0) py_int (\<lambda>x. x) daily_example = Inr tbl \<and>
      map_of tbl ''years'' = Some (U16 [2001, 2001]) \<and> table_aligned tbl)"
  using parsers_return_aligned_tables
    [of "\<lambda>x. 0" py_int "-1" monthly_example py_int "\<lambda>x. x" daily_example]
  by (simp add: monthly_example_table daily_example_table)

section \<open>The daily report: a year is closed at its last day\<close>

lemma daily_header_ok:
  "header_ok line \<Longrightarrow> \<exists>a b. daily_header st line = Inr (st\<lparr>nlay := a, nsub := b\<rparr>)"
proof -
  assume ok: "header_ok line"
  have keep: "st = st\<lparr>nlay := nlay st, nsub := nsub st\<rparr>" by simp
  show ?thesis
  proof (cases "sublist ''TOTAL NUMBER OF LAYERS'' line")
    case True
    with ok obtain n where "int_of_last_token line = Inr n"
      by (auto simp: header_ok_def split: sum.splits)
    with True have "daily_header st line = Inr (st\<lparr>nlay := Some n, nsub := nsub st\<rparr>)"
      by (simp add: daily_header_def)
    then show ?thesis by blast
  next
    case nl: False
    show ?thesis
    proof (cases "sublist ''TOTAL NUMBER OF SUBPROFILES'' line")
      case True
      with ok obtain n where "int_of_last_token line = Inr n"
        by (auto simp: header_ok_def split: sum.splits)
      with nl True have "daily_header st line = Inr (st\<lparr>nlay := nlay st, nsub := Some n\<rparr>)"
        by (simp add: daily_header_def)
      then show ?thesis by blast
    next
      case False
      with nl have "daily_header st line = Inr st" by (simp add: daily_header_def)
      with keep show ?thesis by metis
    qed
  qed
qed

lemma daily_row_quiet:
  assumes "year st = None" and "quiet_row row"
  shows "\<exists>st'. daily_row pyfloat st row = Inr st' \<and> year st' = None \<and> same_arrays st st'"
proof (cases "row = []")
  case True
  with assms(1) show ?thesis by (simp add: daily_row_def same_arrays_def)
next
  case False
  with assms(2) have nm: "\<not> sublist ''DAILY OUTPUT FOR YEAR'' (hd row)" and ok: "header_ok (hd row)"
    by (auto simp: quiet_row_def)
  from daily_header_ok[OF ok, of st] obtain a b where
    h: "daily_header st (hd row) = Inr (st\<lparr>nlay := a, nsub := b\<rparr>)" by blast
  with False nm assms(1) have "daily_row pyfloat st row = Inr (st\<lparr>nlay := a, nsub := b\<rparr>)"
    by (simp add: daily_row_def)
  with assms(1) show ?thesis by (simp add: same_arrays_def)
qed

lemma daily_loop_quiet:
  assumes "year st = None" and "list_all quiet_row rows"
  shows "\<exists>st'. daily_loop pyfloat st rows = Inr st' \<and> year st' = None \<and> same_arrays st st'"
  using assms
proof (induction rows arbitrary: st)
  case Nil
  then show ?case by (simp add: same_arrays_def)
next
  case (Cons row rows)
  from Cons.prems have q: "quiet_row row" and qs: "list_all quiet_row rows" by simp_all
  from daily_row_quiet[OF Cons.prems(1) q, of pyfloat] obtain st1 where
    r: "daily_row pyfloat st row = Inr st1" and y1: "year st1 = None" and s1: "same_arrays st st1"
    by blast
  from Cons.IH[OF y1 qs] obtain st' where
    l: "daily_loop pyfloat st1 rows = Inr st'" and y': "year st' = None" and s': "same_arrays st1 st'"
    by blast
  from r l have "daily_loop pyfloat st (row # rows) = Inr st'" by simp
  with y' s1 s' show ?case by (auto simp: same_arrays_def)
qed

lemma daily_row_marker:
  assumes "marker_row row y"
  shows "\<exists>st'. daily_row pyfloat st row = Inr st' \<and> year st' = Some y \<and>
           days_in_year st' = int (days_of_year y) \<and> same_arrays st st'"
proof -
  from assms have ne: "row \<noteq> []" and m: "sublist ''DAILY OUTPUT FOR YEAR'' (hd row)"
    and ok: "header_ok (hd row)" and y: "int_of_last_token (hd row) = Inr y"
    by (simp_all add: marker_row_def)
  from daily_header_ok[OF ok, of st] obtain a b where
    h: "daily_header st (hd row) = Inr (st\<lparr>nlay := a, nsub := b\<rparr>)" by blast
  with ne m y have "daily_row pyfloat st row =
      Inr (st\<lparr>nlay := a, nsub := b, year := Some y, days_in_year := int (days_of_year y)\<rparr>)"
    by (simp add: daily_row_def)
  then show ?thesis by (simp add: same_arrays_def)
qed

lemma daily_row_data:
  assumes "year st = Some y" and "data_row pyfloat row day"
  shows "\<exists>st'. daily_row pyfloat st row = Inr st' \<and>
           year st' = (if day = days_in_year st then None else Some y) \<and>
           days_in_year st' = days_in_year st \<and>
           arr_years_d st' = arr_years_d st @ [y] \<and> arr_days st' = arr_days st @ [day]"
proof -
  from assms(2) obtain flds where ne: "row \<noteq> []"
    and nm: "\<not> sublist ''DAILY OUTPUT FOR YEAR'' (hd row)" and ok: "header_ok (hd row)"
    and f: "daily_fields pyfloat (hd row) = Some flds" and d: "fst flds = day"
    by (auto simp: data_row_def split: option.splits)
  from daily_header_ok[OF ok, of st] obtain a b where
    h: "daily_header st (hd row) = Inr (st\<lparr>nlay := a, nsub := b\<rparr>)" by blast
  with ne nm f assms(1) have "daily_row pyfloat st row =
      Inr (daily_append (st\<lparr>nlay := a, nsub := b\<rparr>) y flds)"
    by (simp add: daily_row_def)
  with d show ?thesis by (simp add: daily_append_def split_beta)
qed

lemma daily_row_skipped:
  assumes "skipped_row pyfloat row"
  shows "\<exists>st'. daily_row pyfloat st row = Inr st' \<and> year st' = year st \<and>
           days_in_year st' = days_in_year st \<and> same_arrays st st'"
proof (cases "row = []")
  case True
  then show ?thesis by (simp add: daily_row_def same_arrays_def)
next
  case False
  with assms have nm: "\<not> sublist ''DAILY OUTPUT FOR YEAR'' (hd row)" and ok: "header_ok (hd row)"
    and f: "daily_fields pyfloat (hd row) = None"
    by (auto simp: skipped_row_def)
  from daily_header_ok[OF ok, of st] obtain a b where
    h: "daily_header st (hd row) = Inr (st\<lparr>nlay := a, nsub := b\<rparr>)" by blast
  with False nm f have "daily_row pyfloat st row = Inr (st\<lparr>nlay := a, nsub := b\<rparr>)"
    by (simp add: daily_row_def split: option.splits)
  then show ?thesis by (simp add: same_arrays_def)
qed

lemma days_of_simps [simp]:
  "days_of [] = []" "days_of (None # ks) = days_of ks" "days_of (Some d # ks) = d # days_of ks"
  by (simp_all add: days_of_def)

lemma daily_loop_data:
  assumes "year st = Some y" and "list_all2 (row_kind pyfloat) rows ks"
    and "days_in_year st \<notin> set (days_of ks)"
  shows "\<exists>st'. daily_loop pyfloat st rows = Inr st' \<and> year st' = Some y \<and>
           days_in_year st' = days_in_year st \<and>
           arr_years_d st' = arr_years_d st @ replicate (length (days_of ks)) y \<and>
           arr_days st' = arr_days st @ days_of ks"
  using assms(2,1,3)
proof (induction rows ks arbitrary: st rule: list_all2_induct)
  case Nil
  then show ?case by simp
next
  case (Cons row rows k ks)
  show ?case
  proof (cases k)
    case None
    with Cons.hyps(1) have "skipped_row pyfloat row" by (simp add: row_kind_def)
    from daily_row_skipped[OF this, of st] Cons.prems(1) obtain st1 where
      r: "daily_row pyfloat st row = Inr st1" and y1: "year st1 = Some y"
      and d1: "days_in_year st1 = days_in_year st" and s1: "same_arrays st st1"
      by auto
    from Cons.prems(2) d1 None have "days_in_year st1 \<notin> set (days_of ks)" by simp
    from Cons.IH[OF y1 this] obtain st' where
      l: "daily_loop pyfloat st1 rows = Inr st'" and y': "year st' = Some y"
      and d': "days_in_year st' = days_in_year st1"
      and a': "arr_years_d st' = arr_years_d st1 @ replicate (length (days_of ks)) y"
        "arr_days st' = arr_days st1 @ days_of ks"
      by blast
    from r l have "daily_loop pyfloat st (row # rows) = Inr st'" by simp
    with y' d' d1 s1 a' None show ?thesis by (simp add: same_arrays_def)
  next
    case (Some day)
    with Cons.hyps(1) have "data_row pyfloat row day" by (simp add: row_kind_def)
    from daily_row_data[OF Cons.prems(1) this] Cons.prems(2) Some obtain st1 where
      r: "daily_row pyfloat st row = Inr st1" and y1: "year st1 = Some y"
      and d1: "days_in_year st1 = days_in_year st"
      and a1: "arr_years_d st1 = arr_years_d st @ [y]" "arr_days st1 = arr_days st @ [day]"
      by auto
    from Cons.prems(2) d1 Some have "days_in_year st1 \<notin> set (days_of ks)" by simp
    from Cons.IH[OF y1 this] obtain st' where
      l: "daily_loop pyfloat st1 rows = Inr st'" and y': "year st' = Some y"
      and d': "days_in_year st' = days_in_year st1"
      and a': "arr_years_d st' = arr_years_d st1 @ replicate (length (days_of ks)) y"
        "arr_days st' = arr_days st1 @ days_of ks"
      by blast
    from r l have "daily_loop pyfloat st (row # rows) = Inr st'" by simp
    with y' d' d1 a1 a' Some show ?thesis by (simp add: replicate_app_Cons_same)
  qed
qed

lemma daily_loop_append:
  "daily_loop pyfloat st (xs @ ys) =
     ebind (daily_loop pyfloat st xs) (\<lambda>st'. daily_loop pyfloat st' ys)"
  by (induction xs arbitrary: st) (auto split: sum.splits)

lemma daily_loop_year:
  assumes m: "marker_row m y"
    and rows: "list_all2 (row_kind pyfloat) rows ks"
    and ds: "int (days_of_year y) \<notin> set (days_of ks)"
    and fin: "data_row pyfloat final (int (days_of_year y))"
    and tr: "list_all quiet_row trailer"
  shows "\<exists>st'. daily_loop pyfloat st (m # rows @ final # trailer) = Inr st' \<and> year st' = None \<and>
           arr_years_d st' = arr_years_d st @ replicate (Suc (length (days_of ks))) y \<and>
           arr_days st' = arr_days st @ days_of ks @ [int (days_of_year y)]"
proof -
  from daily_row_marker[OF m, of pyfloat st] obtain st0 where
    r0: "daily_row pyfloat st m = Inr st0" and y0: "year st0 = Some y"
    and d0: "days_in_year st0 = int (days_of_year y)" and s0: "same_arrays st st0"
    by blast
  from ds d0 have "days_in_year st0 \<notin> set (days_of ks)" by simp
  from daily_loop_data[OF y0 rows this] obtain st1 where
    l1: "daily_loop pyfloat st0 rows = Inr st1" and y1: "year st1 = Some y"
    and d1: "days_in_year st1 = days_in_year st0"
    and a1: "arr_years_d st1 = arr_years_d st0 @ replicate (length (days_of ks)) y"
      "arr_days st1 = arr_days st0 @ days_of ks"
    by blast
  from daily_row_data[OF y1 fin] d1 d0 obtain st2 where
    r2: "daily_row pyfloat st1 final = Inr st2" and y2: "year st2 = None"
    and a2: "arr_years_d st2 = arr_years_d st1 @ [y]"
      "arr_days st2 = arr_days st1 @ [int (days_of_year y)]"
    by auto
  from daily_loop_quiet[OF y2 tr, of pyfloat] obtain st' where
    l3: "daily_loop pyfloat st2 trailer = Inr st'" and y': "year st' = None"
    and s3: "same_arrays st2 st'"
    by blast
  from l1 r2 l3 have "daily_loop pyfloat st0 (rows @ final # trailer) = Inr st'"
    by (simp add: daily_loop_append)
  with r0 have run: "daily_loop pyfloat st (m # rows @ final # trailer) = Inr st'" by simp
  have "arr_years_d st' = arr_years_d st @ replicate (Suc (length (days_of ks))) y"
    "arr_days st' = arr_days st @ days_of ks @ [int (days_of_year y)]"
    using s0 s3 a1 a2 by (simp_all add: same_arrays_def replicate_append_same)
  with run y' show ?thesis by blast
qed

section \<open>The batch runner skips the simulator when the output exists\<close>

lemma run_help_singlecell_existing:
  assumes "5 < length outparam" and "files w (outparam ! 5) = Some csvread"
  shows "run_help_singlecell sim u16 f32 nan (cellname, outparam) w =
     (case read_monthly_help_output u16 f32 nan csvread of
        Inl e \<Rightarrow> (Inl e, w)
      | Inr results \<Rightarrow>
          (Inr (cellname, results), w\<lparr>files := (files w)(outparam ! 5 := None)\<rparr>))"
  using assms by (simp add: run_help_singlecell_def)

lemma parsed_output_cong:
  "files w' (outparam ! 5) = files w (outparam ! 5) \<Longrightarrow>
   parsed_output u16 f32 nan w' outparam = parsed_output u16 f32 nan w outparam"
  by (simp add: parsed_output_def)

lemma run_cells_existing:
  fixes cellparams :: "('k \<times> string list) list"
  assumes "distinct (map fst cellparams)" and "distinct (map output_path cellparams)"
    and "list_all (\<lambda>item. parsed_output u16 f32 nan w (snd item) \<noteq> None) cellparams"
  shows "\<exists>out' w'. run_cells sim u16 f32 nan cellparams out w = (Inr out', w') \<and>
           simulations w' = simulations w \<and>
           files w' = (\<lambda>p. if p \<in> output_path ` set cellparams then None else files w p) \<and>
           (\<forall>item \<in> set cellparams. out' (fst item) = parsed_output u16 f32 nan w (snd item)) \<and>
           (\<forall>c. c \<notin> fst ` set cellparams \<longrightarrow> out' c = out c)"
  using assms
proof (induction cellparams arbitrary: out w)
  case Nil
  show ?case by simp
next
  case (Cons item items)
  obtain c ps where item: "item = (c, ps)" by (cases item)
  from Cons.prems(3) item obtain csvread results where len: "5 < length ps"
    and f: "files w (ps ! 5) = Some csvread"
    and r: "read_monthly_help_output u16 f32 nan csvread = Inr results"
    and po: "parsed_output u16 f32 nan w ps = Some results"
    by (auto simp: parsed_output_def split: if_splits option.splits sum.splits)
  let ?w1 = "w\<lparr>files := (files w)(ps ! 5 := None)\<rparr>"
  let ?o1 = "out(c \<mapsto> results)"
  from run_help_singlecell_existing[OF len f, of sim u16 f32 nan c] r item
  have one: "run_help_singlecell sim u16 f32 nan item w = (Inr (c, results), ?w1)"
    by simp
  have rest_paths: "output_path it \<noteq> ps ! 5" if "it \<in> set items" for it
  proof -
    from Cons.prems(2) have "output_path item \<notin> output_path ` set items" by simp
    with that have "output_path it \<noteq> output_path item" by (metis imageI)
    with item show ?thesis by (simp add: output_path_def)
  qed
  have la: "list_all (\<lambda>it. parsed_output u16 f32 nan ?w1 (snd it) \<noteq> None) items"
    unfolding list_all_iff
  proof
    fix it assume it: "it \<in> set items"
    from rest_paths[OF it] have "files ?w1 (snd it ! 5) = files w (snd it ! 5)"
      by (simp add: output_path_def)
    from parsed_output_cong[OF this, of u16 f32 nan] Cons.prems(3) it
    show "parsed_output u16 f32 nan ?w1 (snd it) \<noteq> None" by (simp add: list_all_iff)
  qed
  from Cons.prems(1) have d1: "distinct (map fst items)" by simp
  from Cons.prems(2) have d2: "distinct (map output_path items)" by simp
  from Cons.IH[OF d1 d2 la, of ?o1] obtain out' w' where
    run: "run_cells sim u16 f32 nan items ?o1 ?w1 = (Inr out', w')"
    and sims: "simulations w' = simulations ?w1"
    and fs: "files w' = (\<lambda>p. if p \<in> output_path ` set items then None else files ?w1 p)"
    and outs: "\<forall>it \<in> set items. out' (fst it) = parsed_output u16 f32 nan ?w1 (snd it)"
    and others: "\<forall>c'. c' \<notin> fst ` set items \<longrightarrow> out' c' = ?o1 c'"
    by blast
  from one run have total: "run_cells sim u16 f32 nan (item # items) out w = (Inr out', w')"
    by simp
  have 1: "simulations w' = simulations w" using sims by simp
  have 2: "files w' = (\<lambda>p. if p \<in> output_path ` set (item # items) then None else files w p)"
    unfolding fs by (auto simp: item output_path_def fun_eq_iff)
  have 3: "\<forall>it \<in> set (item # items). out' (fst it) = parsed_output u16 f32 nan w (snd it)"
  proof
    fix it assume "it \<in> set (item # items)"
    then consider "it = item" | "it \<in> set items" by auto
    then show "out' (fst it) = parsed_output u16 f32 nan w (snd it)"
    proof cases
      case 1
      from Cons.prems(1) item have "c \<notin> fst ` set items" by auto
      with others have "out' c = Some results" by simp
      with 1 item po show ?thesis by simp
    next
      case 2
      from rest_paths[OF 2] have "files ?w1 (snd it ! 5) = files w (snd it ! 5)"
        by (simp add: output_path_def)
      from parsed_output_cong[OF this, of u16 f32 nan] outs 2 show ?thesis by simp
    qed
  qed
  have 4: "\<forall>c'. c' \<notin> fst ` set (item # items) \<longrightarrow> out' c' = out c'"
    using others item by auto
  from total 1 2 3 4 show ?case by blast
qed

text \<open>
  Claim C3, as it holds. A cell whose output file exists is never simulated: the file is
  parsed, and if the parser returns, the file is deleted and the table is returned with
  the name of the cell; if the parser raises, its exception is the outcome and the file
  stays. Hence a batch of cells with distinct names and distinct output paths, whose
  output files all exist and all parse, returns the table of every cell, deletes the
  files and makes no call of the simulator.
\<close>

theorem existing_output_is_parsed_not_simulated:
  fixes cellparams :: "('k \<times> string list) list" and f32 :: "string \<Rightarrow> ('v::zero) option"
  shows "(5 < length outparam \<and> files w (outparam ! 5) = Some csvread \<longrightarrow>
      run_help_singlecell sim u16 f32 nan (cellname, outparam) w =
        (case read_monthly_help_output u16 f32 nan csvread of
           Inl e \<Rightarrow> (Inl e, w)
         | Inr results \<Rightarrow>
             (Inr (cellname, results), w\<lparr>files := (files w)(outparam ! 5 := None)\<rparr>))) \<and>
    (distinct (map fst cellparams) \<and> distinct (map output_path cellparams) \<and>
     list_all (\<lambda>item. parsed_output u16 f32 nan w (snd item) \<noteq> None) cellparams \<longrightarrow>
      (\<exists>out w'. run_help_allcells sim u16 f32 nan cellparams w = (Inr out, w') \<and>
         simulations w' = simulations w \<and>
         files w' = (\<lambda>p. if p \<in> output_path ` set cellparams then None else files w p) \<and>
         (\<forall>item \<in> set cellparams. out (fst item) = parsed_output u16 f32 nan w (snd item)) \<and>
         dom out = fst ` set cellparams))"
proof (intro conjI impI)
  assume "5 < length outparam \<and> files w (outparam ! 5) = Some csvread"
  then show "run_help_singlecell sim u16 f32 nan (cellname, outparam) w =
        (case read_monthly_help_output u16 f32 nan csvread of
           Inl e \<Rightarrow> (Inl e, w)
         | Inr results \<Rightarrow>
             (Inr (cellname, results), w\<lparr>files := (files w)(outparam ! 5 := None)\<rparr>))"
    by (simp add: run_help_singlecell_existing)
next
  assume a: "distinct (map fst cellparams) \<and> distinct (map output_path cellparams) \<and>
     list_all (\<lambda>item. parsed_output u16 f32 nan w (snd item) \<noteq> None) cellparams"
  then have a1: "distinct (map fst cellparams)" and a2: "distinct (map output_path cellparams)"
    and a3: "list_all (\<lambda>item. parsed_output u16 f32 nan w (snd item) \<noteq> None) cellparams"
    by simp_all
  from run_cells_existing[OF a1 a2 a3, of sim Map.empty] obtain out w' where
    run: "run_cells sim u16 f32 nan cellparams Map.empty w = (Inr out, w')"
    and sims: "simulations w' = simulations w"
    and fs: "files w' = (\<lambda>p. if p \<in> output_path ` set cellparams then None else files w p)"
    and outs: "\<forall>item \<in> set cellparams. out (fst item) = parsed_output u16 f32 nan w (snd item)"
    and others: "\<forall>c. c \<notin> fst ` set cellparams \<longrightarrow> out c = None"
    by auto
  have "dom out = fst ` set cellparams"
  proof (intro set_eqI iffI)
    fix c assume "c \<in> dom out"
    with others show "c \<in> fst ` set cellparams" by (auto simp: dom_def)
  next
    fix c assume "c \<in> fst ` set cellparams"
    then obtain item where it: "item \<in> set cellparams" and c: "c = fst item" by auto
    from a3 it have "parsed_output u16 f32 nan w (snd item) \<noteq> None" by (simp add: list_all_iff)
    with outs it c show "c \<in> dom out" by (auto simp: dom_def)
  qed
  with run sims fs outs
  show "\<exists>out w'. run_help_allcells sim u16 f32 nan cellparams w = (Inr out, w') \<and>
         simulations w' = simulations w \<and>
         files w' = (\<lambda>p. if p \<in> output_path ` set cellparams then None else files w p) \<and>
         (\<forall>item \<in> set cellparams. out (fst item) = parsed_output u16 f32 nan w (snd item)) \<and>
         dom out = fst ` set cellparams"
    unfolding run_help_allcells_def by blast
qed

lemma truncated_report_raises:
  "read_monthly_help_output (\<lambda>x. 0) py_int (-1) truncated_report = Inl IndexError"
  by code_simp

theorem existing_output_counterexample:
  "files world_truncated (snd cell_1 ! 5) = Some truncated_report \<and>
   fst (run_help_singlecell no_simulator (\<lambda>x. 0) py_int (-1) cell_1 world_truncated) = Inl IndexError \<and>
   files (snd (run_help_singlecell no_simulator (\<lambda>x. 0) py_int (-1) cell_1 world_truncated))
     (snd cell_1 ! 5) = Some truncated_report"
proof -
  have f: "files world_truncated (snd cell_1 ! 5) = Some truncated_report"
    by (simp add: world_truncated_def cell_1_def)
  have l: "5 < length (snd cell_1)" by (simp add: cell_1_def)
  have "run_help_singlecell no_simulator (\<lambda>x. 0) py_int (-1) (fst cell_1, snd cell_1) world_truncated =
      (Inl IndexError, world_truncated)"
    unfolding run_help_singlecell_existing[OF l f] truncated_report_raises by simp
  with f show ?thesis by simp
qed

lemma world_complete_parsed:
  "parsed_output (\<lambda>x. 0) py_int (-1) world_complete (snd cell_1) \<noteq> None"
  "parsed_output (\<lambda>x. 0) py_int (-1) world_complete (snd cell_2) \<noteq> None"
  by (simp_all add: parsed_output_def world_complete_def cell_1_def cell_2_def
      monthly_example_table)

theorem existing_output_is_parsed_not_simulated_witness:
  "5 < length (snd cell_1) \<and> files world_complete (snd cell_1 ! 5) = Some monthly_example \<and>
   run_help_singlecell no_simulator (\<lambda>x. 0) py_int (-1) (fst cell_1, snd cell_1) world_complete =
     (case read_monthly_help_output (\<lambda>x. 0) py_int (-1) monthly_example of
        Inl e \<Rightarrow> (Inl e, world_complete)
      | Inr results \<Rightarrow>
          (Inr (fst cell_1, results),
           world_complete\<lparr>files := (files world_complete)(snd cell_1 ! 5 := None)\<rparr>)) \<and>
   distinct (map fst [cell_1, cell_2]) \<and> distinct (map output_path [cell_1, cell_2]) \<and>
   list_all (\<lambda>item. parsed_output (\<lambda>x. 0) py_int (-1) world_complete (snd item) \<noteq> None)
     [cell_1, cell_2] \<and>
   (\<exists>out w'. run_help_allcells no_simulator (\<lambda>x. 0) py_int (-1) [cell_1, cell_2] world_complete =
        (Inr out, w') \<and>
      simulations w' = simulations world_complete \<and>
      files w' = (\<lambda>p. if p \<in> output_path ` set [cell_1, cell_2] then None
                       else files world_complete p) \<and>
      (\<forall>item \<in> set [cell_1, cell_2].
         out (fst item) = parsed_output (\<lambda>x. 0) py_int (-1) world_complete (snd item)) \<and>
      dom out = fst ` set [cell_1, cell_2])"
proof -
  have l: "5 < length (snd cell_1)" by (simp add: cell_1_def)
  have f: "files world_complete (snd cell_1 ! 5) = Some monthly_example"
    by (simp add: world_complete_def cell_1_def)
  have d1: "distinct (map fst [cell_1, cell_2])" by (simp add: cell_1_def cell_2_def)
  have d2: "distinct (map output_path [cell_1, cell_2])"
    by (simp add: cell_1_def cell_2_def output_path_def)
  have p: "list_all (\<lambda>item. parsed_output (\<lambda>x. 0) py_int (-1) world_complete (snd item) \<noteq> None)
     [cell_1, cell_2]"
    using world_complete_parsed by simp
  from l f d1 d2 p
    existing_output_is_parsed_not_simulated[of "snd cell_1" world_complete monthly_example
      no_simulator "\<lambda>x. 0" py_int "-1" "fst cell_1" "[cell_1, cell_2]"]
  show ?thesis by blast
qed

section \<open>Merging two CWEEDS datasets\<close>

lemma length_scatter [simp]: "length (scatter a is vs) = length a"
  by (induction a "is" vs rule: scatter.induct) simp_all

lemma scatter_untouched: "p \<notin> set is \<Longrightarrow> scatter a is vs ! p = a ! p"
  by (induction a "is" vs rule: scatter.induct) simp_all

lemma scatter_last:
  assumes "length vs = length is" and "j < length is" and "is ! j \<notin> set (drop (Suc j) is)"
    and "is ! j < length a"
  shows "scatter a is vs ! (is ! j) = vs ! j"
  using assms
proof (induction a "is" vs arbitrary: j rule: scatter.induct)
  case (1 a i "is" v vs)
  show ?case
  proof (cases j)
    case 0
    with "1.prems" have "i \<notin> set is" and "i < length a" by simp_all
    then have "scatter (a[i := v]) is vs ! i = v" by (simp add: scatter_untouched)
    with 0 show ?thesis by simp
  next
    case (Suc k)
    with "1.prems" have "length vs = length is" "k < length is"
      "is ! k \<notin> set (drop (Suc k) is)" "is ! k < length (a[i := v])"
      by simp_all
    from "1.IH"[OF this] Suc show ?thesis by simp
  qed
qed simp_all

lemma digitize_position:
  "sorted_wrt (<) (bins :: ('t::linorder) list) \<Longrightarrow> p < length bins \<Longrightarrow>
   length (filter (\<lambda>b. b < bins ! p) bins) = p"
proof (induction bins arbitrary: p)
  case Nil
  then show ?case by simp
next
  case (Cons b bs)
  show ?case
  proof (cases p)
    case 0
    from Cons.prems(1) have "\<forall>x \<in> set bs. \<not> x < b" by (auto dest: less_asym)
    then have "filter (\<lambda>x. x < b) bs = []" by (simp add: filter_empty_conv)
    with 0 show ?thesis by simp
  next
    case (Suc k)
    with Cons.prems have k: "k < length bs" and s: "sorted_wrt (<) bs" by simp_all
    from Cons.prems(1) k have "b < bs ! k" by simp
    with Cons.IH[OF s k] Suc show ?thesis by simp
  qed
qed

lemma distinct_remdups_adj_sorted:
  "sorted xs \<Longrightarrow> distinct (remdups_adj (xs :: ('t::linorder) list))"
  by (induction xs rule: remdups_adj.induct) auto

lemma np_unique_axis:
  "sorted_wrt (<) (sort (np_unique (xs :: ('t::linorder) list)))"
  "set (sort (np_unique xs)) = set xs"
proof -
  have s: "sorted (remdups_adj (sort xs))" by (simp add: sorted_remdups_adj)
  have d: "distinct (remdups_adj (sort xs))" by (simp add: distinct_remdups_adj_sorted)
  from s have "sort (remdups_adj (sort xs)) = remdups_adj (sort xs)"
    by (rule sorted_sort_id)
  with s d show "sorted_wrt (<) (sort (np_unique xs))"
    by (simp add: np_unique_def strict_sorted_iff)
  show "set (sort (np_unique xs)) = set xs" by (simp add: np_unique_def)
qed

lemma digitize_right_nth:
  fixes T :: "('t::linorder) list"
  assumes "sorted_wrt (<) T" and "set ts \<subseteq> set T" and "j < length ts"
  shows "digitize_right ts T ! j < length T \<and> T ! (digitize_right ts T ! j) = ts ! j"
proof -
  from assms(2,3) have "ts ! j \<in> set T" by auto
  then obtain p where p: "p < length T" "T ! p = ts ! j" by (auto simp: in_set_conv_nth)
  from digitize_position[OF assms(1) p(1)] p(2)
  have "length (filter (\<lambda>b. b < ts ! j) T) = p" by simp
  with assms(3) p show ?thesis by (simp add: digitize_right_def)
qed

lemma scatter_field:
  fixes T :: "('t::linorder) list"
  assumes T: "sorted_wrt (<) T" and sub: "set ts \<subseteq> set T"
    and lv: "length vs = length ts" and la: "length a = length T"
  shows "setitem a (digitize_right ts T) vs = Inr (scatter a (digitize_right ts T) vs)"
    and "last_occurrence ts j \<Longrightarrow> p < length T \<Longrightarrow> T ! p = ts ! j \<Longrightarrow>
         scatter a (digitize_right ts T) vs ! p = vs ! j"
    and "p < length T \<Longrightarrow> T ! p \<notin> set ts \<Longrightarrow> scatter a (digitize_right ts T) vs ! p = a ! p"
proof -
  let ?idx = "digitize_right ts T"
  have len: "length ?idx = length ts" by (simp add: digitize_right_def)
  note nth = digitize_right_nth[OF T sub]
  from T have dist: "distinct T" by (simp add: strict_sorted_iff)
  have "\<not> list_ex (\<lambda>i. length a \<le> i) ?idx"
    unfolding list_ex_iff
  proof
    assume "\<exists>i \<in> set ?idx. length a \<le> i"
    then obtain k where "k < length ts" "length a \<le> ?idx ! k"
      by (auto simp: in_set_conv_nth len)
    with nth[of k] la show False by simp
  qed
  with lv len show "setitem a ?idx vs = Inr (scatter a ?idx vs)"
    by (simp add: setitem_def)
  show "scatter a ?idx vs ! p = vs ! j"
    if lo: "last_occurrence ts j" and p: "p < length T" and tp: "T ! p = ts ! j"
  proof -
    from lo have j: "j < length ts" and later: "ts ! j \<notin> set (drop (Suc j) ts)"
      by (simp_all add: last_occurrence_def)
    from nth[OF j] have ij: "?idx ! j < length T" "T ! (?idx ! j) = ts ! j" by simp_all
    from ij(2) tp have "T ! (?idx ! j) = T ! p" by simp
    with dist ij(1) p have pj: "?idx ! j = p" by (simp add: nth_eq_iff_index_eq)
    have nl: "?idx ! j \<notin> set (drop (Suc j) ?idx)"
    proof
      assume "?idx ! j \<in> set (drop (Suc j) ?idx)"
      then obtain k where k: "Suc j \<le> k" "k < length ts" "?idx ! k = ?idx ! j"
        by (auto simp: in_set_conv_nth len) (metis add_Suc le_add1 less_diff_conv add.commute)
      from nth[OF k(2)] k(3) ij(2) have "ts ! k = ts ! j" by simp
      moreover from k have "ts ! k \<in> set (drop (Suc j) ts)"
        by (auto simp: in_set_conv_nth intro!: exI[of _ "k - Suc j"])
      ultimately show False using later by simp
    qed
    have "scatter a ?idx vs ! (?idx ! j) = vs ! j"
    proof (rule scatter_last)
      show "length vs = length ?idx" using lv len by simp
      show "j < length ?idx" using j len by simp
      show "?idx ! j \<notin> set (drop (Suc j) ?idx)" by (rule nl)
      show "?idx ! j < length a" using ij(1) la by simp
    qed
    with pj show ?thesis by simp
  qed
  show "scatter a ?idx vs ! p = a ! p" if p: "p < length T" and tp: "T ! p \<notin> set ts"
  proof -
    have "p \<notin> set ?idx"
    proof
      assume "p \<in> set ?idx"
      then obtain k where k: "k < length ts" "?idx ! k = p" by (auto simp: in_set_conv_nth len)
      from nth[OF k(1)] k(2) have "T ! p = ts ! k" by simp
      with k(1) tp show False by simp
    qed
    then show ?thesis by (rule scatter_untouched)
  qed
qed

lemma scattered_fields [simp]:
  "Time (scattered acc d) = Time acc" "header (scattered acc d) = header acc"
  "Time_Format (scattered acc d) = Time_Format acc"
  "CWEEDS_Format (scattered acc d) = CWEEDS_Format acc"
  by (simp_all add: scattered_def Let_def)

lemma scattered_aligned: "cweeds_aligned acc \<Longrightarrow> cweeds_aligned (scattered acc d)"
  by (simp add: cweeds_aligned_def scattered_def Let_def)

lemma merge_dataset_result:
  fixes acc d :: "('t::linorder, 'v) cweeds"
  assumes T: "sorted_wrt (<) (Time acc)" and sub: "set (Time d) \<subseteq> set (Time acc)"
    and al: "cweeds_aligned d" and ac: "cweeds_aligned acc"
  shows "merge_dataset acc d = Inr (scattered acc d)"
    and "last_occurrence (Time d) j \<Longrightarrow> p < length (Time acc) \<Longrightarrow>
           Time acc ! p = Time d ! j \<Longrightarrow> row_at (scattered acc d) p = row_at d j"
    and "p < length (Time acc) \<Longrightarrow> Time acc ! p \<notin> set (Time d) \<Longrightarrow>
           row_at (scattered acc d) p = row_at acc p"
proof -
  from al ac have l:
    "length (Years d) = length (Time d)" "length (Years acc) = length (Time acc)"
    "length (Months d) = length (Time d)" "length (Months acc) = length (Time acc)"
    "length (Days d) = length (Time d)" "length (Days acc) = length (Time acc)"
    "length (Hours d) = length (Time d)" "length (Hours acc) = length (Time acc)"
    "length (Irradiance d) = length (Time d)" "length (Irradiance acc) = length (Time acc)"
    by (simp_all add: cweeds_aligned_def)
  note y = scatter_field[OF T sub l(1) l(2)]
  note m = scatter_field[OF T sub l(3) l(4)]
  note dd = scatter_field[OF T sub l(5) l(6)]
  note h = scatter_field[OF T sub l(7) l(8)]
  note i = scatter_field[OF T sub l(9) l(10)]
  show "merge_dataset acc d = Inr (scattered acc d)"
    by (simp add: merge_dataset_def scattered_def Let_def y(1) m(1) dd(1) h(1) i(1))
  show "row_at (scattered acc d) p = row_at d j"
    if "last_occurrence (Time d) j" "p < length (Time acc)" "Time acc ! p = Time d ! j"
    using y(2)[OF that] m(2)[OF that] dd(2)[OF that] h(2)[OF that] i(2)[OF that]
    by (simp add: row_at_def scattered_def Let_def)
  show "row_at (scattered acc d) p = row_at acc p"
    if "p < length (Time acc)" "Time acc ! p \<notin> set (Time d)"
    using y(3)[OF that] m(3)[OF that] dd(3)[OF that] h(3)[OF that] i(3)[OF that]
    by (simp add: row_at_def scattered_def Let_def)
qed

lemma empty_merged_fields:
  fixes wy2_df wy3_df :: "('t::linorder, 'v) cweeds"
  shows "sorted_wrt (<) (Time (empty_merged ji jf h wy2_df wy3_df))"
    and "set (Time (empty_merged ji jf h wy2_df wy3_df)) = set (Time wy2_df) \<union> set (Time wy3_df)"
    and "cweeds_aligned (empty_merged ji jf h wy2_df wy3_df)"
    and "header (empty_merged ji jf h wy2_df wy3_df) = Some h"
    and "Time_Format (empty_merged ji jf h wy2_df wy3_df) = Time_Format wy3_df"
    and "CWEEDS_Format (empty_merged ji jf h wy2_df wy3_df) = ''WY2+WY3''"
  using np_unique_axis[of "Time wy2_df @ Time wy3_df"]
  by (simp_all add: empty_merged_def Let_def cweeds_aligned_def)

lemma join_result:
  fixes wy2_df wy3_df :: "('t::linorder, 'v) cweeds" and junk_int :: int and junk_float :: 'v
  assumes tags: "CWEEDS_Format wy2_df = ''WY2''" "CWEEDS_Format wy3_df = ''WY3''"
      "Time_Format wy2_df = Time_Format wy3_df"
    and hd: "header wy3_df = Some h"
    and al: "cweeds_aligned wy2_df" "cweeds_aligned wy3_df"
  defines "m \<equiv> scattered (scattered (empty_merged junk_int junk_float h wy2_df wy3_df) wy2_df) wy3_df"
  shows "join_daily_cweeds_wy2_and_wy3 junk_int junk_float wy2_df wy3_df = Inr m"
    and "sorted_wrt (<) (Time m)" and "set (Time m) = set (Time wy2_df) \<union> set (Time wy3_df)"
    and "cweeds_aligned m"
    and "header m = Some h" and "Time_Format m = Time_Format wy3_df"
    and "CWEEDS_Format m = ''WY2+WY3''"
    and "last_occurrence (Time wy3_df) j \<Longrightarrow> p < length (Time m) \<Longrightarrow>
           Time m ! p = Time wy3_df ! j \<Longrightarrow> row_at m p = row_at wy3_df j"
    and "last_occurrence (Time wy2_df) j \<Longrightarrow> Time wy2_df ! j \<notin> set (Time wy3_df) \<Longrightarrow>
           p < length (Time m) \<Longrightarrow> Time m ! p = Time wy2_df ! j \<Longrightarrow>
           row_at m p = row_at wy2_df j"
proof -
  let ?acc0 = "empty_merged junk_int junk_float h wy2_df wy3_df"
  let ?acc1 = "scattered ?acc0 wy2_df"
  note e = empty_merged_fields[of junk_int junk_float h wy2_df wy3_df]
  have sub2: "set (Time wy2_df) \<subseteq> set (Time ?acc0)" using e(2) by simp
  note r1 = merge_dataset_result[OF e(1) sub2 al(1) e(3)]
  have T1: "sorted_wrt (<) (Time ?acc1)" using e(1) by simp
  have sub3: "set (Time wy3_df) \<subseteq> set (Time ?acc1)" using e(2) by simp
  have a1: "cweeds_aligned ?acc1" using e(3) by (rule scattered_aligned)
  note r2 = merge_dataset_result[OF T1 sub3 al(2) a1]
  have "join_daily_cweeds_wy2_and_wy3 junk_int junk_float wy2_df wy3_df =
      ebind (merge_dataset ?acc0 wy2_df) (\<lambda>wy23_df. merge_dataset wy23_df wy3_df)"
    using tags hd by (simp add: join_daily_cweeds_wy2_and_wy3_def empty_merged_def Let_def)
  then show "join_daily_cweeds_wy2_and_wy3 junk_int junk_float wy2_df wy3_df = Inr m"
    by (simp add: r1(1) r2(1) m_def)
  show "sorted_wrt (<) (Time m)" using e(1) by (simp add: m_def)
  show "set (Time m) = set (Time wy2_df) \<union> set (Time wy3_df)" using e(2) by (simp add: m_def)
  show "cweeds_aligned m" unfolding m_def using a1 by (rule scattered_aligned)
  show "header m = Some h" using e(4) by (simp add: m_def)
  show "Time_Format m = Time_Format wy3_df" using e(5) by (simp add: m_def)
  show "CWEEDS_Format m = ''WY2+WY3''" using e(6) by (simp add: m_def)
  show "row_at m p = row_at wy3_df j"
    if "last_occurrence (Time wy3_df) j" "p < length (Time m)" "Time m ! p = Time wy3_df ! j"
    unfolding m_def using that by (intro r2(2)) (simp_all add: m_def)
  show "row_at m p = row_at wy2_df j"
    if "last_occurrence (Time wy2_df) j" "Time wy2_df ! j \<notin> set (Time wy3_df)"
      "p < length (Time m)" "Time m ! p = Time wy2_df ! j"
  proof -
    from that have "row_at m p = row_at ?acc1 p"
      unfolding m_def by (intro r2(3)) (simp_all add: m_def)
    also from that have "row_at ?acc1 p = row_at wy2_df j"
      by (intro r1(2)) (simp_all add: m_def)
    finally show ?thesis .
  qed
qed

lemma last_occurrence_exists:
  "t \<in> set ts \<Longrightarrow> \<exists>j. last_occurrence ts j \<and> ts ! j = t"
proof (induction ts)
  case Nil
  then show ?case by simp
next
  case (Cons x xs)
  show ?case
  proof (cases "t \<in> set xs")
    case True
    from Cons.IH[OF this] obtain j where "last_occurrence xs j" "xs ! j = t" by blast
    then have "last_occurrence (x # xs) (Suc j) \<and> (x # xs) ! Suc j = t"
      by (simp add: last_occurrence_def)
    then show ?thesis by blast
  next
    case False
    with Cons.prems have "last_occurrence (x # xs) 0 \<and> (x # xs) ! 0 = t"
      by (simp add: last_occurrence_def)
    then show ?thesis by blast
  qed
qed

lemma appears_onceI:
  assumes "distinct (Time m)" and "t \<in> set (Time m)"
    and "\<And>p. p < length (Time m) \<Longrightarrow> Time m ! p = t \<Longrightarrow> row_at m p = r"
  shows "appears_once m t r"
proof -
  from assms(2) obtain p where p: "p < length (Time m)" "Time m ! p = t"
    by (auto simp: in_set_conv_nth)
  have "q = p" if "q < length (Time m)" "Time m ! q = t" for q
  proof -
    from p(2) that(2) have "Time m ! q = Time m ! p" by simp
    with assms(1) p(1) that(1) show ?thesis by (simp add: nth_eq_iff_index_eq)
  qed
  with p assms(3)[OF p] show ?thesis unfolding appears_once_def by blast
qed

text \<open>
  Claim C1, as it holds. The merged time axis is strictly increasing, has no duplicate
  and holds exactly the coordinates of the two sources, and the merged arrays are as long
  as the axis. A row of the WY3 dataset that is the last one of its coordinate there
  appears exactly once in the result, at the index of its coordinate; so does a row of
  the WY2 dataset that is the last one of its coordinate there, if the coordinate does
  not occur in the WY3 dataset. (A WY2 row at a shared coordinate is overwritten.)
\<close>

theorem join_time_axis_and_rows:
  fixes wy2_df wy3_df :: "('t::linorder, 'v) cweeds"
  assumes "CWEEDS_Format wy2_df = ''WY2''" and "CWEEDS_Format wy3_df = ''WY3''"
    and "Time_Format wy2_df = Time_Format wy3_df"
    and "header wy3_df = Some h"
    and "cweeds_aligned wy2_df" and "cweeds_aligned wy3_df"
  shows "\<exists>m. join_daily_cweeds_wy2_and_wy3 junk_int junk_float wy2_df wy3_df = Inr m \<and>
    sorted_wrt (<) (Time m) \<and> distinct (Time m) \<and>
    set (Time m) = set (Time wy2_df) \<union> set (Time wy3_df) \<and> cweeds_aligned m \<and>
    (\<forall>j. last_occurrence (Time wy3_df) j \<longrightarrow>
       appears_once m (Time wy3_df ! j) (row_at wy3_df j)) \<and>
    (\<forall>j. last_occurrence (Time wy2_df) j \<and> Time wy2_df ! j \<notin> set (Time wy3_df) \<longrightarrow>
       appears_once m (Time wy2_df ! j) (row_at wy2_df j))"
proof -
  let ?m = "scattered (scattered (empty_merged junk_int junk_float h wy2_df wy3_df) wy2_df) wy3_df"
  note r = join_result[OF assms, where junk_int = junk_int and junk_float = junk_float]
  from r(2) have d: "distinct (Time ?m)" by (simp add: strict_sorted_iff)
  have 3: "appears_once ?m (Time wy3_df ! j) (row_at wy3_df j)"
    if "last_occurrence (Time wy3_df) j" for j
  proof (rule appears_onceI[OF d])
    from that show "Time wy3_df ! j \<in> set (Time ?m)"
      unfolding r(3) by (simp add: last_occurrence_def)
    show "row_at ?m p = row_at wy3_df j" if "p < length (Time ?m)" "Time ?m ! p = Time wy3_df ! j"
      for p using \<open>last_occurrence (Time wy3_df) j\<close> that by (rule r(8))
  qed
  have 2: "appears_once ?m (Time wy2_df ! j) (row_at wy2_df j)"
    if "last_occurrence (Time wy2_df) j \<and> Time wy2_df ! j \<notin> set (Time wy3_df)" for j
  proof (rule appears_onceI[OF d])
    from that show "Time wy2_df ! j \<in> set (Time ?m)"
      unfolding r(3) by (simp add: last_occurrence_def)
    show "row_at ?m p = row_at wy2_df j" if "p < length (Time ?m)" "Time ?m ! p = Time wy2_df ! j"
      for p using conjunct1[OF \<open>last_occurrence (Time wy2_df) j \<and> _\<close>]
        conjunct2[OF \<open>last_occurrence (Time wy2_df) j \<and> _\<close>] that by (rule r(9))
  qed
  from r(1,2,3,4) d 2 3 show ?thesis by blast
qed

lemma join_example:
  "join_daily_cweeds_wy2_and_wy3 0 0 wy2_example wy3_example = Inr merged_example"
  by code_simp

theorem join_time_axis_and_rows_counterexample:
  "join_daily_cweeds_wy2_and_wy3 0 0 wy2_example wy3_example = Inr merged_example \<and>
   row_at wy2_example 1 = (2000, 1, 2, 0, 20) \<and>
   (2000, 1, 2, 0, 20) \<notin> set (map (row_at merged_example) [0..<length (Time merged_example)])"
proof -
  have "row_at wy2_example 1 = (2000, 1, 2, 0, 20)" by code_simp
  moreover have "(2000, 1, 2, 0, 20) \<notin>
      set (map (row_at merged_example) [0..<length (Time merged_example)])"
    by code_simp
  ultimately show ?thesis using join_example by simp
qed

theorem join_time_axis_and_rows_witness:
  "CWEEDS_Format wy2_example = ''WY2'' \<and> CWEEDS_Format wy3_example = ''WY3'' \<and>
   Time_Format wy2_example = Time_Format wy3_example \<and>
   header wy3_example = Some example_header \<and>
   cweeds_aligned wy2_example \<and> cweeds_aligned wy3_example \<and>
   (\<exists>m. join_daily_cweeds_wy2_and_wy3 0 0 wy2_example wy3_example = Inr m \<and>
      sorted_wrt (<) (Time m) \<and> distinct (Time m) \<and>
      set (Time m) = set (Time wy2_example) \<union> set (Time wy3_example) \<and> cweeds_aligned m \<and>
      (\<forall>j. last_occurrence (Time wy3_example) j \<longrightarrow>
         appears_once m (Time wy3_example ! j) (row_at wy3_example j)) \<and>
      (\<forall>j. last_occurrence (Time wy2_example) j \<and>
           Time wy2_example ! j \<notin> set (Time wy3_example) \<longrightarrow>
         appears_once m (Time wy2_example ! j) (row_at wy2_example j)))"
proof -
  have 1: "CWEEDS_Format wy2_example = ''WY2''" by (simp add: wy2_example_def)
  have 2: "CWEEDS_Format wy3_example = ''WY3''" by (simp add: wy3_example_def)
  have 3: "Time_Format wy2_example = Time_Format wy3_example"
    by (simp add: wy2_example_def wy3_example_def)
  have 4: "header wy3_example = Some example_header" by (simp add: wy3_example_def)
  have 5: "cweeds_aligned wy2_example" by (simp add: wy2_example_def cweeds_aligned_def)
  have 6: "cweeds_aligned wy3_example" by (simp add: wy3_example_def cweeds_aligned_def)
  from 1 2 3 4 5 6 join_time_axis_and_rows[OF 1 2 3 4 5 6, of 0 0]
  show ?thesis by blast
qed

text \<open>
  Claim C10. When the two datasets share a time coordinate, the merged row at that
  coordinate is the row of the WY3 dataset (the last WY3 row of that coordinate, which is
  the WY3 row if the coordinates of the WY3 dataset are distinct): the WY3 dataset is
  scattered after the WY2 one. The nine entries of the header and the time format of the
  merged dataset are those of the WY3 dataset; its format tag is \<^verbatim>\<open>WY2+WY3\<close>.
\<close>

theorem join_collisions_take_wy3:
  fixes wy2_df wy3_df :: "('t::linorder, 'v) cweeds"
  assumes "CWEEDS_Format wy2_df = ''WY2''" and "CWEEDS_Format wy3_df = ''WY3''"
    and "Time_Format wy2_df = Time_Format wy3_df"
    and "header wy3_df = Some h"
    and "cweeds_aligned wy2_df" and "cweeds_aligned wy3_df"
  shows "\<exists>m. join_daily_cweeds_wy2_and_wy3 junk_int junk_float wy2_df wy3_df = Inr m \<and>
    header m = header wy3_df \<and> Time_Format m = Time_Format wy3_df \<and>
    CWEEDS_Format m = ''WY2+WY3'' \<and>
    (\<forall>t \<in> set (Time wy2_df) \<inter> set (Time wy3_df).
       \<exists>j. last_occurrence (Time wy3_df) j \<and> Time wy3_df ! j = t \<and>
           appears_once m t (row_at wy3_df j))"
proof -
  let ?m = "scattered (scattered (empty_merged junk_int junk_float h wy2_df wy3_df) wy2_df) wy3_df"
  note r = join_result[OF assms, where junk_int = junk_int and junk_float = junk_float]
  from r(2) have d: "distinct (Time ?m)" by (simp add: strict_sorted_iff)
  have "\<exists>j. last_occurrence (Time wy3_df) j \<and> Time wy3_df ! j = t \<and>
           appears_once ?m t (row_at wy3_df j)"
    if t: "t \<in> set (Time wy2_df) \<inter> set (Time wy3_df)" for t
  proof -
    from t have "t \<in> set (Time wy3_df)" by simp
    from last_occurrence_exists[OF this] obtain j where
      j: "last_occurrence (Time wy3_df) j" "Time wy3_df ! j = t" by blast
    have "appears_once ?m t (row_at wy3_df j)"
    proof (rule appears_onceI[OF d])
      from t show "t \<in> set (Time ?m)" unfolding r(3) by simp
      show "row_at ?m p = row_at wy3_df j" if "p < length (Time ?m)" "Time ?m ! p = t" for p
      proof -
        from that(2) j(2) have "Time ?m ! p = Time wy3_df ! j" by simp
        with j(1) that(1) show ?thesis by (rule r(8))
      qed
    qed
    with j show ?thesis by blast
  qed
  with r(1,5,6,7) assms(4) show ?thesis by auto
qed

theorem join_collisions_take_wy3_witness:
  "CWEEDS_Format wy2_example = ''WY2'' \<and> CWEEDS_Format wy3_example = ''WY3'' \<and>
   Time_Format wy2_example = Time_Format wy3_example \<and>
   header wy3_example = Some example_header \<and>
   cweeds_aligned wy2_example \<and> cweeds_aligned wy3_example \<and>
   set (Time wy2_example) \<inter> set (Time wy3_example) = {36527} \<and>
   row_at merged_example 1 = row_at wy3_example 0 \<and>
   (\<exists>m. join_daily_cweeds_wy2_and_wy3 0 0 wy2_example wy3_example = Inr m \<and>
      header m = header wy3_example \<and> Time_Format m = Time_Format wy3_example \<and>
      CWEEDS_Format m = ''WY2+WY3'' \<and>
      (\<forall>t \<in> set (Time wy2_example) \<inter> set (Time wy3_example).
         \<exists>j. last_occurrence (Time wy3_example) j \<and> Time wy3_example ! j = t \<and>
             appears_once m t (row_at wy3_example j)))"
proof -
  have 1: "CWEEDS_Format wy2_example = ''WY2''" by (simp add: wy2_example_def)
  have 2: "CWEEDS_Format wy3_example = ''WY3''" by (simp add: wy3_example_def)
  have 3: "Time_Format wy2_example = Time_Format wy3_example"
    by (simp add: wy2_example_def wy3_example_def)
  have 4: "header wy3_example = Some example_header" by (simp add: wy3_example_def)
  have 5: "cweeds_aligned wy2_example" by (simp add: wy2_example_def cweeds_aligned_def)
  have 6: "cweeds_aligned wy3_example" by (simp add: wy3_example_def cweeds_aligned_def)
  have 7: "set (Time wy2_example) \<inter> set (Time wy3_example) = {36527}"
    by (simp add: wy2_example_def wy3_example_def)
  have 8: "row_at merged_example 1 = row_at wy3_example 0"
    by (simp add: row_at_def merged_example_def wy3_example_def)
  from 1 2 3 4 5 6 7 8 join_collisions_take_wy3[OF 1 2 3 4 5 6, of 0 0]
  show ?thesis by blast
qed

section \<open>Writing the input files of HELP: incomplete years\<close>

lemma np_unique_set: "set (np_unique xs) = set xs"
  by (simp add: np_unique_def)

lemma np_where_eq_bound: "list_all (\<lambda>i. i < length years) (np_where_eq years yr)"
  by (simp add: np_where_eq_def list_all_iff)

lemma format_year_complete:
  assumes "length (np_where_eq years yr) = days_of_year yr"
    and "length years \<le> length data"
  shows "\<exists>lines. format_year year_format data_format years data yr = Inr lines"
proof -
  have "list_all (\<lambda>i. i < length data) (np_where_eq years yr)"
    using assms(2) by (auto simp: np_where_eq_def list_all_iff)
  then show ?thesis
    using assms(1)
    by (auto simp: format_year_def take_indexes_def reshape_grid_def days_of_year_def
        ebind_simps)
qed

lemma format_year_incomplete:
  assumes "length (np_where_eq years yr) \<noteq> days_of_year yr"
  shows "format_year year_format data_format years data yr = Inl AssertionError"
  using assms by (simp add: format_year_def days_of_year_def)

lemma format_years_incomplete:
  assumes "\<exists>yr \<in> set ys. length (np_where_eq years yr) \<noteq> days_of_year yr"
  shows "\<exists>e. format_years year_format data_format years data ys fdata = Inl e"
  using assms
proof (induction ys arbitrary: fdata)
  case Nil
  then show ?case by simp
next
  case (Cons y ys)
  show ?case
  proof (cases "format_year year_format data_format years data y")
    case (Inl e)
    then show ?thesis by (simp add: ebind_simps)
  next
    case (Inr lines)
    then have "length (np_where_eq years y) = days_of_year y"
      using format_year_incomplete[of years y year_format data_format data] by auto
    with Cons.prems have "\<exists>yr \<in> set ys. length (np_where_eq years yr) \<noteq> days_of_year yr"
      by auto
    from Cons.IH[OF this] Inr show ?thesis by (simp add: ebind_simps)
  qed
qed

lemma format_years_assertion:
  assumes "\<exists>yr \<in> set ys. length (np_where_eq years yr) \<noteq> days_of_year yr"
    and "length years \<le> length data"
  shows "format_years year_format data_format years data ys fdata = Inl AssertionError"
  using assms(1)
proof (induction ys arbitrary: fdata)
  case Nil
  then show ?case by simp
next
  case (Cons y ys)
  show ?case
  proof (cases "length (np_where_eq years y) = days_of_year y")
    case True
    from format_year_complete[OF True assms(2)] obtain lines where
      l: "format_year year_format data_format years data y = Inr lines" by blast
    from True Cons.prems
    have "\<exists>yr \<in> set ys. length (np_where_eq years yr) \<noteq> days_of_year yr" by auto
    from Cons.IH[OF this] l show ?thesis by (simp add: ebind_simps)
  next
    case False
    then show ?thesis by (simp add: format_year_incomplete ebind_simps)
  qed
qed

text \<open>
  Claim C7. When the values selected for some year of the \<^verbatim>\<open>years\<close> array are not 365 in
  number (366 in a leap year), each writer of the HELP format returns an error and leaves
  every file as it was: \<^verbatim>\<open>save_data_to_HELP_format\<close>, the three writers by kind of data,
  and \<^verbatim>\<open>format_timeseries_for_HELP\<close>, which gives no rows. When \<^verbatim>\<open>data\<close> is as long as
  \<^verbatim>\<open>years\<close> the error is the \<^verbatim>\<open>AssertionError\<close> of the check on the number of days, for
  \<^verbatim>\<open>save_data_to_HELP_format\<close> when the extension and the latitude are accepted.
\<close>

theorem incomplete_year_is_rejected:
  assumes "\<exists>yr \<in> set years. length (np_where_eq years yr) \<noteq> days_of_year yr"
  shows "(\<exists>e. format_timeseries_for_HELP years data year_format data_format = Inl e) \<and>
     (\<exists>e. save_data_to_HELP_format ffmt filename years data city lat fs = (Inl e, fs)) \<and>
     (\<exists>e. save_precip_to_HELP ffmt filename years data city fs = (Inl e, fs)) \<and>
     (\<exists>e. save_airtemp_to_HELP ffmt filename years data city fs = (Inl e, fs)) \<and>
     (\<exists>e. save_solrad_to_HELP ffmt filename years data city lat fs = (Inl e, fs)) \<and>
     (length years \<le> length data \<longrightarrow>
        format_timeseries_for_HELP years data year_format data_format = Inl AssertionError \<and>
        ((\<exists>f. help_formats (drop 1 (splitext_ext filename)) lat = Inr f) \<longrightarrow>
           save_data_to_HELP_format ffmt filename years data city lat fs =
             (Inl AssertionError, fs)) \<and>
        save_precip_to_HELP ffmt filename years data city fs = (Inl AssertionError, fs) \<and>
        save_airtemp_to_HELP ffmt filename years data city fs = (Inl AssertionError, fs) \<and>
        save_solrad_to_HELP ffmt filename years data city lat fs = (Inl AssertionError, fs))"
proof -
  from assms have u: "\<exists>yr \<in> set (np_unique years).
      length (np_where_eq years yr) \<noteq> days_of_year yr"
    by (simp add: np_unique_set)
  have some: "\<exists>e. format_years yf df years data (np_unique years) acc = Inl e"
    for yf and df :: "'a \<Rightarrow> string" and acc
    by (rule format_years_incomplete[OF u])
  have assertion: "format_years yf df years data (np_unique years) acc = Inl AssertionError"
    if "length years \<le> length data" for yf and df :: "'a \<Rightarrow> string" and acc
    by (rule format_years_assertion[OF u that])
  have 1: "\<exists>e. format_timeseries_for_HELP years data year_format data_format = Inl e"
    unfolding format_timeseries_for_HELP_def by (rule some)
  have 2: "\<exists>e. save_data_to_HELP_format ffmt filename years data city lat fs = (Inl e, fs)"
  proof (cases "help_formats (drop 1 (splitext_ext filename)) lat")
    case (Inl e)
    then show ?thesis by (simp add: save_data_to_HELP_format_def)
  next
    case (Inr f)
    obtain yw dw dp where f: "f = (yw, dw, dp)" by (cases f) auto
    let ?fcontent = "[[format_int 2 3], [format_int 2 2], [ljust 40 (take 40 city)]] @
        (if drop 1 (splitext_ext filename) = ''D13'' then [[ffmt 6 2 (the lat)]] else [[]])"
    from some[of "format_int yw" "ffmt dw dp" ?fcontent] obtain e where
      "format_years (format_int yw) (ffmt dw dp) years data (np_unique years) ?fcontent = Inl e"
      by blast
    with Inr f show ?thesis
      by (simp add: save_data_to_HELP_format_def)
  qed
  have 3: "\<exists>e. save_precip_to_HELP ffmt filename years data city fs = (Inl e, fs)"
    using some[of "format_int 10" "ffmt 5 1" "[]"]
    by (auto simp: save_precip_to_HELP_def save_to_HELP_def format_timeseries_for_HELP_def)
  have 4: "\<exists>e. save_airtemp_to_HELP ffmt filename years data city fs = (Inl e, fs)"
    using some[of "format_int 5" "ffmt 6 1" "[]"]
    by (auto simp: save_airtemp_to_HELP_def save_to_HELP_def format_timeseries_for_HELP_def)
  have 5: "\<exists>e. save_solrad_to_HELP ffmt filename years data city lat fs = (Inl e, fs)"
    using some[of "format_int 5" "ffmt 6 2" "[]"]
    by (auto simp: save_solrad_to_HELP_def save_to_HELP_def format_timeseries_for_HELP_def)
  have 6: "format_timeseries_for_HELP years data year_format data_format = Inl AssertionError"
    if "length years \<le> length data"
    unfolding format_timeseries_for_HELP_def by (rule assertion[OF that])
  have 7: "save_data_to_HELP_format ffmt filename years data city lat fs =
             (Inl AssertionError, fs)"
    if l: "length years \<le> length data"
      and "\<exists>f. help_formats (drop 1 (splitext_ext filename)) lat = Inr f"
  proof -
    from that(2) obtain yw dw dp where
      "help_formats (drop 1 (splitext_ext filename)) lat = Inr (yw, dw, dp)"
      by (metis prod_cases3)
    with assertion[OF l, of "format_int yw" "ffmt dw dp"] show ?thesis
      by (simp add: save_data_to_HELP_format_def)
  qed
  have 8: "save_precip_to_HELP ffmt filename years data city fs = (Inl AssertionError, fs)"
    if l: "length years \<le> length data"
    using assertion[OF l, of "format_int 10" "ffmt 5 1" "[]"]
    by (simp add: save_precip_to_HELP_def save_to_HELP_def format_timeseries_for_HELP_def)
  have 9: "save_airtemp_to_HELP ffmt filename years data city fs = (Inl AssertionError, fs)"
    if l: "length years \<le> length data"
    using assertion[OF l, of "format_int 5" "ffmt 6 1" "[]"]
    by (simp add: save_airtemp_to_HELP_def save_to_HELP_def format_timeseries_for_HELP_def)
  have 10: "save_solrad_to_HELP ffmt filename years data city lat fs = (Inl AssertionError, fs)"
    if l: "length years \<le> length data"
    using assertion[OF l, of "format_int 5" "ffmt 6 2" "[]"]
    by (simp add: save_solrad_to_HELP_def save_to_HELP_def format_timeseries_for_HELP_def)
  from 1 2 3 4 5 6 7 8 9 10 show ?thesis by blast
qed

theorem incomplete_year_is_rejected_witness:
  "(\<exists>yr \<in> set [2001, 2001]. length (np_where_eq [2001, 2001] yr) \<noteq> days_of_year yr) \<and>
   length [2001, 2001 :: int] \<le> length [1 / 2, 3 :: rat] \<and>
   (\<exists>f. help_formats (drop 1 (splitext_ext ''weather/precip.D4'')) (None :: rat option) = Inr f) \<and>
   format_timeseries_for_HELP [2001, 2001] [1 / 2, 3] (format_int 10) (format_f 5 1) =
     Inl AssertionError \<and>
   save_data_to_HELP_format format_f ''weather/precip.D4'' [2001, 2001] [1 / 2, 3] ''Montreal''
     None Map.empty = (Inl AssertionError, Map.empty) \<and>
   save_precip_to_HELP format_f ''weather/precip.D4'' [2001, 2001] [1 / 2, 3] ''Montreal''
     Map.empty = (Inl AssertionError, Map.empty) \<and>
   save_airtemp_to_HELP format_f ''weather/precip.D4'' [2001, 2001] [1 / 2, 3] ''Montreal''
     Map.empty = (Inl AssertionError, Map.empty) \<and>
   save_solrad_to_HELP format_f ''weather/precip.D4'' [2001, 2001] [1 / 2, 3] ''Montreal''
     None Map.empty = (Inl AssertionError, Map.empty)"
proof -
  have h: "\<exists>yr \<in> set [2001, 2001]. length (np_where_eq [2001, 2001] yr) \<noteq> days_of_year yr"
    by (simp add: np_where_eq_def days_of_year_def)
  have l: "length [2001, 2001 :: int] \<le> length [1 / 2, 3 :: rat]" by simp
  have f: "\<exists>f. help_formats (drop 1 (splitext_ext ''weather/precip.D4'')) (None :: rat option)
      = Inr f"
    by (simp add: help_formats_def splitext_ext_def)
  from incomplete_year_is_rejected[OF h, of "[1 / 2, 3]" "format_int 10" "format_f 5 1"
      format_f "''weather/precip.D4''" "''Montreal''" None Map.empty] l f h
  show ?thesis by blast
qed

section \<open>Reading a CWEEDS file: the daily aggregation\<close>

lemma cweeds_rows_length:
  "cweeds_rows pyfloat div1000 xldate off reader = Inr rs \<Longrightarrow> length rs = length reader"
  by (induction reader arbitrary: rs) (auto split: sum.splits)

lemma reshape_rows_nth:
  assumes "length xs = k * n" and "i < n" and "0 < k"
  shows "length (reshape_rows k xs) = n"
    and "reshape_rows k xs ! i = take k (drop (k * i) xs)"
    and "hd (reshape_rows k xs ! i) = xs ! (k * i)"
proof -
  from assms(1,3) have n: "length xs div k = n" by simp
  then show "length (reshape_rows k xs) = n" by (simp add: reshape_rows_def)
  from n assms(2) show r: "reshape_rows k xs ! i = take k (drop (k * i) xs)"
    by (simp add: reshape_rows_def mult.commute)
  have "k * i < k * n" using assms(2,3) by simp
  with assms(1) have "k * i < length xs" by simp
  with assms(3) show "hd (reshape_rows k xs ! i) = xs ! (k * i)"
    by (simp add: r hd_drop_conv_nth)
qed

lemma read_cweeds_file_hourly:
  assumes "read_cweeds_file pyfloat div1000 npsum xldate filename reader False = Inr hourly"
  obtains header_df rs where
    "cweeds_rows pyfloat div1000 xldate (if cweeds_ext filename = ''WY2'' then 0 else 2)
       (cweeds_data filename reader) = Inr rs"
    and "hourly = (hourly_of rs)\<lparr>header := header_df, Time_Format := ''hourly'',
           CWEEDS_Format := cweeds_ext filename\<rparr>"
    and "read_cweeds_file pyfloat div1000 npsum xldate filename reader True =
           format_to_daily_df npsum (hourly_of rs) header_df (cweeds_ext filename)"
proof -
  from assms have ext: "\<not> (cweeds_ext filename \<noteq> ''WY2'' \<and> cweeds_ext filename \<noteq> ''WY3'')"
    by (auto simp: read_cweeds_file_def split: if_splits)
  with assms obtain header_df rs where
    h: "(if cweeds_ext filename = ''WY3'' then
                 (case reader of
                    [] \<Rightarrow> Inl IndexError
                  | header_list # rest \<Rightarrow>
                      ebind (cweeds_header_of pyfloat header_list) (\<lambda>h. Inr (Some h)))
               else Inr None) = Inr header_df"
    and r: "cweeds_rows pyfloat div1000 xldate (if cweeds_ext filename = ''WY2'' then 0 else 2)
       (cweeds_data filename reader) = Inr rs"
    and e: "hourly = (hourly_of rs)\<lparr>header := header_df, Time_Format := ''hourly'',
           CWEEDS_Format := cweeds_ext filename\<rparr>"
    unfolding read_cweeds_file_def by (auto simp: ebind_eq_Inr)
  from ext h r have "read_cweeds_file pyfloat div1000 npsum xldate filename reader True =
           format_to_daily_df npsum (hourly_of rs) header_df (cweeds_ext filename)"
    unfolding read_cweeds_file_def by auto
  with r e show ?thesis by (rule that)
qed

lemma read_cweeds_file_short:
  assumes "length (cweeds_data filename reader) mod 24 \<noteq> 0"
  shows "\<exists>e. read_cweeds_file pyfloat div1000 npsum xldate filename reader True = Inl e"
proof (cases "read_cweeds_file pyfloat div1000 npsum xldate filename reader True")
  case (Inl e)
  then show ?thesis by blast
next
  case (Inr daily)
  then have ext: "\<not> (cweeds_ext filename \<noteq> ''WY2'' \<and> cweeds_ext filename \<noteq> ''WY3'')"
    by (auto simp: read_cweeds_file_def split: if_splits)
  with Inr obtain header_df rs where
    r: "cweeds_rows pyfloat div1000 xldate (if cweeds_ext filename = ''WY2'' then 0 else 2)
       (cweeds_data filename reader) = Inr rs"
    and d: "format_to_daily_df npsum (hourly_of rs) header_df (cweeds_ext filename) = Inr daily"
    unfolding read_cweeds_file_def by (auto simp: ebind_eq_Inr)
  from cweeds_rows_length[OF r] assms have "length (Irradiance (hourly_of rs)) mod 24 \<noteq> 0"
    by (simp add: hourly_of_def)
  with d show ?thesis by (simp add: format_to_daily_df_def)
qed

text \<open>
  Claim C8. With the daily aggregation enabled, \<^verbatim>\<open>read_cweeds_file\<close> fails on every input
  whose number of data rows is not a multiple of 24: by the assertion, if nothing fails
  before. On an input of \<open>24 * k\<close> data rows that the hourly reading accepts, it returns
  \<open>k\<close> daily values: each \<^verbatim>\<open>Irradiance\<close> is the sum of its block of 24 hourly values, as
  \<^verbatim>\<open>np.sum\<close> computes it in floating point (\<open>npsum\<close>), \<^verbatim>\<open>Years\<close>, \<^verbatim>\<open>Months\<close>, \<^verbatim>\<open>Days\<close>
  and \<^verbatim>\<open>Time\<close> are those of the first row of the block, and all \<^verbatim>\<open>Hours\<close> are zero. The
  hourly values are the floats of the file divided by 1000 in floating point; the theorem
  holds whatever the float operations compute.
\<close>

theorem daily_aggregation_of_full_days:
  shows "(length (cweeds_data filename reader) mod 24 \<noteq> 0 \<longrightarrow>
       (\<exists>e. read_cweeds_file pyfloat div1000 npsum xldate filename reader True = Inl e) \<and>
       (\<forall>hourly. read_cweeds_file pyfloat div1000 npsum xldate filename reader False = Inr hourly \<longrightarrow>
          read_cweeds_file pyfloat div1000 npsum xldate filename reader True = Inl AssertionError)) \<and>
     (\<forall>hourly k. read_cweeds_file pyfloat div1000 npsum xldate filename reader False = Inr hourly \<and>
        length (cweeds_data filename reader) = 24 * k \<longrightarrow>
        length (Irradiance hourly) = 24 * k \<and>
        (\<exists>daily. read_cweeds_file pyfloat div1000 npsum xldate filename reader True = Inr daily \<and>
           length (Irradiance daily) = k \<and> length (Years daily) = k \<and>
           length (Months daily) = k \<and> length (Days daily) = k \<and> length (Time daily) = k \<and>
           Hours daily = replicate k 0 \<and>
           (\<forall>i < k. Irradiance daily ! i = npsum (take 24 (drop (24 * i) (Irradiance hourly))) \<and>
              Years daily ! i = Years hourly ! (24 * i) \<and>
              Months daily ! i = Months hourly ! (24 * i) \<and>
              Days daily ! i = Days hourly ! (24 * i) \<and>
              Time daily ! i = Time hourly ! (24 * i)) \<and>
           header daily = header hourly \<and> Time_Format daily = ''daily'' \<and>
           CWEEDS_Format daily = CWEEDS_Format hourly))"
proof (intro conjI impI allI)
  assume "length (cweeds_data filename reader) mod 24 \<noteq> 0"
  then show "\<exists>e. read_cweeds_file pyfloat div1000 npsum xldate filename reader True = Inl e"
    by (rule read_cweeds_file_short)
next
  fix hourly
  assume n: "length (cweeds_data filename reader) mod 24 \<noteq> 0"
    and h: "read_cweeds_file pyfloat div1000 npsum xldate filename reader False = Inr hourly"
  from h obtain header_df rs where
    r: "cweeds_rows pyfloat div1000 xldate (if cweeds_ext filename = ''WY2'' then 0 else 2)
       (cweeds_data filename reader) = Inr rs"
    and d: "read_cweeds_file pyfloat div1000 npsum xldate filename reader True =
           format_to_daily_df npsum (hourly_of rs) header_df (cweeds_ext filename)"
    by (rule read_cweeds_file_hourly)
  from cweeds_rows_length[OF r] n have "length (Irradiance (hourly_of rs)) mod 24 \<noteq> 0"
    by (simp add: hourly_of_def)
  with d show "read_cweeds_file pyfloat div1000 npsum xldate filename reader True = Inl AssertionError"
    by (simp add: format_to_daily_df_def)
next
  fix hourly k
  assume a: "read_cweeds_file pyfloat div1000 npsum xldate filename reader False = Inr hourly \<and>
        length (cweeds_data filename reader) = 24 * k"
  then obtain header_df rs where
    r: "cweeds_rows pyfloat div1000 xldate (if cweeds_ext filename = ''WY2'' then 0 else 2)
       (cweeds_data filename reader) = Inr rs"
    and e: "hourly = (hourly_of rs)\<lparr>header := header_df, Time_Format := ''hourly'',
           CWEEDS_Format := cweeds_ext filename\<rparr>"
    and d: "read_cweeds_file pyfloat div1000 npsum xldate filename reader True =
           format_to_daily_df npsum (hourly_of rs) header_df (cweeds_ext filename)"
    by (auto elim: read_cweeds_file_hourly)
  from cweeds_rows_length[OF r] a have len: "length rs = 24 * k" by simp
  then have l: "length (Years hourly) = 24 * k" "length (Months hourly) = 24 * k"
    "length (Days hourly) = 24 * k" "length (Time hourly) = 24 * k"
    "length (Irradiance hourly) = 24 * k"
    by (simp_all add: e hourly_of_def)
  show "length (Irradiance hourly) = 24 * k" by (rule l(5))
  let ?daily = "\<lparr>Years = map hd (reshape_rows 24 (Years hourly)),
             Months = map hd (reshape_rows 24 (Months hourly)),
             Days = map hd (reshape_rows 24 (Days hourly)),
             Hours = replicate k 0,
             Time = map hd (reshape_rows 24 (Time hourly)),
             Irradiance = map npsum (reshape_rows 24 (Irradiance hourly)),
             header = header_df, Time_Format = ''daily'',
             CWEEDS_Format = cweeds_ext filename\<rparr>"
  have run: "read_cweeds_file pyfloat div1000 npsum xldate filename reader True = Inr ?daily"
    using len by (simp add: d format_to_daily_df_def e hourly_of_def)
  have lens: "length (reshape_rows 24 (Years hourly)) = k"
    "length (reshape_rows 24 (Months hourly)) = k"
    "length (reshape_rows 24 (Days hourly)) = k"
    "length (reshape_rows 24 (Time hourly)) = k"
    "length (reshape_rows 24 (Irradiance hourly)) = k"
    using l by (simp_all add: reshape_rows_def)
  have vals: "Irradiance ?daily ! i = npsum (take 24 (drop (24 * i) (Irradiance hourly))) \<and>
              Years ?daily ! i = Years hourly ! (24 * i) \<and>
              Months ?daily ! i = Months hourly ! (24 * i) \<and>
              Days ?daily ! i = Days hourly ! (24 * i) \<and>
              Time ?daily ! i = Time hourly ! (24 * i)" if i: "i < k" for i
    using reshape_rows_nth(2,3)[OF l(1) i] reshape_rows_nth(2,3)[OF l(2) i]
      reshape_rows_nth(2,3)[OF l(3) i] reshape_rows_nth(2,3)[OF l(4) i]
      reshape_rows_nth(2,3)[OF l(5) i] lens i
    by simp
  have "length (Irradiance ?daily) = k \<and> length (Years ?daily) = k \<and>
           length (Months ?daily) = k \<and> length (Days ?daily) = k \<and> length (Time ?daily) = k \<and>
           Hours ?daily = replicate k 0 \<and>
           (\<forall>i < k. Irradiance ?daily ! i =
                npsum (take 24 (drop (24 * i) (Irradiance hourly))) \<and>
              Years ?daily ! i = Years hourly ! (24 * i) \<and>
              Months ?daily ! i = Months hourly ! (24 * i) \<and>
              Days ?daily ! i = Days hourly ! (24 * i) \<and>
              Time ?daily ! i = Time hourly ! (24 * i)) \<and>
           header ?daily = header hourly \<and> Time_Format ?daily = ''daily'' \<and>
           CWEEDS_Format ?daily = CWEEDS_Format hourly"
    using lens vals by (simp add: e)
  with run show "\<exists>daily. read_cweeds_file pyfloat div1000 npsum xldate filename reader True = Inr daily \<and>
           length (Irradiance daily) = k \<and> length (Years daily) = k \<and>
           length (Months daily) = k \<and> length (Days daily) = k \<and> length (Time daily) = k \<and>
           Hours daily = replicate k 0 \<and>
           (\<forall>i < k. Irradiance daily ! i = npsum (take 24 (drop (24 * i) (Irradiance hourly))) \<and>
              Years daily ! i = Years hourly ! (24 * i) \<and>
              Months daily ! i = Months hourly ! (24 * i) \<and>
              Days daily ! i = Days hourly ! (24 * i) \<and>
              Time daily ! i = Time hourly ! (24 * i)) \<and>
           header daily = header hourly \<and> Time_Format daily = ''daily'' \<and>
           CWEEDS_Format daily = CWEEDS_Format hourly"
    by blast
qed

lemma cweeds_day_daily:
  "read_cweeds_file example_float example_div1000 sum_list example_xldate
       ''data/MONTREAL.WY2'' cweeds_day True =
     Inr cweeds_daily_example"
  by code_simp

lemma cweeds_day_hourly:
  "case read_cweeds_file example_float example_div1000 sum_list example_xldate
       ''data/MONTREAL.WY2'' cweeds_day False of
     Inl e \<Rightarrow> False | Inr hourly \<Rightarrow> True"
  by code_simp

lemma cweeds_hour_hourly:
  "case read_cweeds_file example_float example_div1000 sum_list example_xldate
       ''data/MONTREAL.WY2'' (take 1 cweeds_day)
      False of
     Inl e \<Rightarrow> False | Inr hourly \<Rightarrow> True"
  by code_simp

theorem daily_aggregation_of_full_days_witness:
  "length (cweeds_data ''data/MONTREAL.WY2'' (take 1 cweeds_day)) mod 24 \<noteq> 0 \<and>
   read_cweeds_file example_float example_div1000 sum_list example_xldate
       ''data/MONTREAL.WY2'' (take 1 cweeds_day) True =
     Inl AssertionError \<and>
   length (cweeds_data ''data/MONTREAL.WY2'' cweeds_day) = 24 * 1 \<and>
   read_cweeds_file example_float example_div1000 sum_list example_xldate
       ''data/MONTREAL.WY2'' cweeds_day True =
     Inr cweeds_daily_example \<and>
   (\<exists>hourly.
      read_cweeds_file example_float example_div1000 sum_list example_xldate
       ''data/MONTREAL.WY2'' cweeds_day False =
        Inr hourly \<and>
      length (Irradiance hourly) = 24 * 1 \<and>
      Hours cweeds_daily_example = replicate 1 0 \<and>
      (\<forall>i < 1. Irradiance cweeds_daily_example ! i =
           sum_list (take 24 (drop (24 * i) (Irradiance hourly))) \<and>
         Years cweeds_daily_example ! i = Years hourly ! (24 * i) \<and>
         Months cweeds_daily_example ! i = Months hourly ! (24 * i) \<and>
         Days cweeds_daily_example ! i = Days hourly ! (24 * i) \<and>
         Time cweeds_daily_example ! i = Time hourly ! (24 * i)))"
proof -
  let ?f = "''data/MONTREAL.WY2''"
  have n1: "length (cweeds_data ?f (take 1 cweeds_day)) mod 24 \<noteq> 0" by code_simp
  have n24: "length (cweeds_data ?f cweeds_day) = 24 * 1" by code_simp
  from cweeds_hour_hourly obtain h1 where
    h1: "read_cweeds_file example_float example_div1000 sum_list example_xldate
       ?f (take 1 cweeds_day) False = Inr h1"
    by (auto split: sum.splits)
  from cweeds_day_hourly obtain h24 where
    h24: "read_cweeds_file example_float example_div1000 sum_list example_xldate
       ?f cweeds_day False = Inr h24"
    by (auto split: sum.splits)
  from daily_aggregation_of_full_days[of ?f "take 1 cweeds_day" example_float example_div1000
      sum_list example_xldate]
    n1 h1
  have short: "read_cweeds_file example_float example_div1000 sum_list example_xldate
       ?f (take 1 cweeds_day) True =
     Inl AssertionError"
    by blast
  from daily_aggregation_of_full_days[of ?f cweeds_day example_float example_div1000 sum_list
      example_xldate]
    n24 h24 cweeds_day_daily
  have "length (Irradiance h24) = 24 * 1 \<and>
      Hours cweeds_daily_example = replicate 1 0 \<and>
      (\<forall>i < 1. Irradiance cweeds_daily_example ! i =
           sum_list (take 24 (drop (24 * i) (Irradiance h24))) \<and>
         Years cweeds_daily_example ! i = Years h24 ! (24 * i) \<and>
         Months cweeds_daily_example ! i = Months h24 ! (24 * i) \<and>
         Days cweeds_daily_example ! i = Days h24 ! (24 * i) \<and>
         Time cweeds_daily_example ! i = Time h24 ! (24 * i))"
    by (metis sum.inject(2))
  with n1 n24 short h24 cweeds_day_daily show ?thesis by blast
qed

end
